theory Spec2Isabelle
  imports Complex_Main
begin

section \<open>Vendor payment API: purchase orders, payments and the ledger between them\<close>

text \<open>
  A shallow embedding of \<^verbatim>\<open>PurchaseOrdersService\<close> (purchase-orders.service.ts) and
  \<^verbatim>\<open>PaymentsService\<close> (payments.service.ts).

  Conventions of the embedding:
  \<^item> a JavaScript \<^verbatim>\<open>number\<close> holding an amount is a \<^typ>\<open>real\<close>. A stored or validated
    amount is the decimal it prints as. An arithmetic expression over amounts yields a
    binary double, which differs from the exact value by an error that the environment
    supplies and that is at most a quarter of a hundredth; \<^verbatim>\<open>toFixed(2)\<close> rounds
    that double, so a value half-way between two hundredths may go either way;
  \<^item> a \<^verbatim>\<open>Date\<close> is an \<^typ>\<open>int\<close>: its wall-clock reading in the time zone of the
    server, in milliseconds. \<^verbatim>\<open>new Date()\<close> is read from the environment;
    \<^verbatim>\<open>setDate\<close> moves the reading by whole days of 86400000 milliseconds; a
    \<^verbatim>\<open>date\<close> column keeps the day, which is the reading at 00:00 of that day, and
    is read back as the string \<^verbatim>\<open>YYYY-MM-DD\<close>;
  \<^item> a row id (a uuid in the source) is a \<^typ>\<open>nat\<close>;
  \<^item> the database is a record of row lists; an optional DTO property is an \<open>option\<close>;
  \<^item> every \<^verbatim>\<open>throw\<close> is a value of the type \<open>error\<close>, one constructor per throw site;
  \<^item> audit columns (createdBy, updatedBy) and soft deletion are left out.
\<close>

subsection \<open>Enumerations (common/enums/index.ts)\<close>

datatype VendorStatus = ACTIVE | INACTIVE

datatype PaymentTerms = NET_15 | NET_30 | NET_45 | NET_60 | IMMEDIATE | ADVANCE

datatype PurchaseOrderStatus = PENDING | APPROVED | PARTIALLY_PAID | PAID | OVERDUE | CANCELLED

datatype PaymentStatus = COMPLETED | VOIDED

subsection \<open>Errors\<close>

datatype error =
    VendorNotFound              \<comment> \<open>NotFoundException: Vendor with ID ... not found\<close>
  | VendorInactive              \<comment> \<open>BadRequestException: Cannot create PO for vendor with status ...\<close>
  | PoNotFound                  \<comment> \<open>NotFoundException: Purchase order with ID ... not found\<close>
  | ItemNotFound                \<comment> \<open>NotFoundException: Item with ID ... not found in this PO\<close>
  | PaymentNotFound             \<comment> \<open>NotFoundException: Payment with ID ... not found\<close>
  | InvalidStatusTransition     \<comment> \<open>BadRequestException: Cannot transition from ... to ...\<close>
  | ImmutableAfterTerminal      \<comment> \<open>BadRequestException: Cannot modify paid/cancelled purchase order\<close>
  | InvalidStateForMutation     \<comment> \<open>BadRequestException: Cannot add/modify/remove items ...\<close>
  | LastItemRemovalForbidden    \<comment> \<open>BadRequestException: Cannot remove the last item from a PO\<close>
  | PoCancelled                 \<comment> \<open>BadRequestException: Cannot record payment for cancelled PO\<close>
  | PoAlreadyPaid               \<comment> \<open>BadRequestException: PO is already fully paid\<close>
  | PoNotApproved               \<comment> \<open>BadRequestException: PO must be approved before recording payments\<close>
  | PaymentExceedsOutstanding   \<comment> \<open>BadRequestException: Payment amount exceeds outstanding balance\<close>
  | PaymentExceedsTotal         \<comment> \<open>BadRequestException: Payment would exceed total amount\<close>
  | PaymentAlreadyVoided        \<comment> \<open>BadRequestException: Payment is already voided\<close>
  | CannotCancelPaid            \<comment> \<open>BadRequestException: Cannot cancel a fully paid purchase order\<close>
  | CannotCancelWithPayments    \<comment> \<open>BadRequestException: Cannot cancel PO with payments\<close>
  | QueryFailed                 \<comment> \<open>the database rejects a statement (unique index) or the commit\<close>

text \<open>
  The specification groups the three status refusals of payment recording under one name.
\<close>

definition InvalidPoStateForPayment :: "error set" where
  "InvalidPoStateForPayment = {PoCancelled, PoAlreadyPaid, PoNotApproved}"

subsection \<open>Numbers\<close>

text \<open>
  \<^verbatim>\<open>Number(x.toFixed(2))\<close> of a double \<open>x\<close>: the sign is split off, and of the two
  nearest multiples of 0.01 the larger one is taken when \<open>x\<close> is exactly half-way.
\<close>

definition toFixed2 :: "real \<Rightarrow> real" where
  "toFixed2 x = (if x < 0 then - (of_int \<lfloor>(- x) * 100 + 1 / 2\<rfloor> / 100)
                 else of_int \<lfloor>x * 100 + 1 / 2\<rfloor> / 100)"

text \<open>\<^verbatim>\<open>v || 0\<close> on an optional number.\<close>

definition orZero :: "real option \<Rightarrow> real" where
  "orZero v = (case v of None \<Rightarrow> 0 | Some r \<Rightarrow> r)"

text \<open>A value that a \<^verbatim>\<open>decimal(15,2)\<close> column or \<^verbatim>\<open>maxDecimalPlaces: 2\<close> admits.\<close>

definition twoDecimals :: "real \<Rightarrow> bool" where
  "twoDecimals x = (of_int \<lfloor>x * 100\<rfloor> = x * 100)"

subsection \<open>Entities and DTOs\<close>

record CreatePurchaseOrderItemDto =
  description :: string
  quantity :: real
  unitPrice :: real
  taxRate :: "real option"
  discountPercent :: "real option"

record PurchaseOrderItem = CreatePurchaseOrderItemDto +
  item_id :: nat
  totalPrice :: real

record UpdatePurchaseOrderItemDto =
  ui_description :: "string option"
  ui_quantity :: "real option"
  ui_unitPrice :: "real option"
  ui_taxRate :: "real option"
  ui_discountPercent :: "real option"

record Vendor =
  vendor_id :: nat
  vendor_status :: VendorStatus
  paymentTerms :: PaymentTerms

record PurchaseOrder =
  po_id :: nat
  poNumber :: string
  vendorId :: nat
  poDate :: int
  dueDate :: int
  totalAmount :: real
  paidAmount :: real
  outstandingAmount :: real
  subtotal :: real
  status :: PurchaseOrderStatus
  po_notes :: "string option"
  referenceNumber :: "string option"
  shippingAddress :: "string option"
  billingAddress :: "string option"
  taxAmount :: real
  discountAmount :: real
  items :: "PurchaseOrderItem list"

record CreatePurchaseOrderDto =
  c_vendorId :: nat
  c_poDate :: "int option"
  c_items :: "CreatePurchaseOrderItemDto list"
  c_notes :: "string option"
  c_referenceNumber :: "string option"
  c_shippingAddress :: "string option"
  c_billingAddress :: "string option"
  c_taxAmount :: "real option"
  c_discountAmount :: "real option"

record UpdatePurchaseOrderDto =
  u_poDate :: "int option"
  u_notes :: "string option"
  u_referenceNumber :: "string option"
  u_shippingAddress :: "string option"
  u_billingAddress :: "string option"
  u_taxAmount :: "real option"
  u_discountAmount :: "real option"
  u_status :: "PurchaseOrderStatus option"
  u_dueDate :: "int option"

record Payment =
  payment_id :: nat
  paymentReference :: string
  purchaseOrderId :: nat
  paymentDate :: int
  amountPaid :: real
  payment_status :: PaymentStatus
  voidedAt :: "int option"
  voidReason :: "string option"

record CreatePaymentDto =
  p_purchaseOrderId :: nat
  p_amountPaid :: real
  p_paymentDate :: "int option"

text \<open>The committed content of the database.\<close>

record Store =
  vendors :: "Vendor list"
  purchaseOrders :: "PurchaseOrder list"
  payments :: "Payment list"

text \<open>
  What an operation reads from outside: the clock, as the day string \<^verbatim>\<open>YYYYMMDD\<close> of
  \<^verbatim>\<open>toISOString\<close> and as a time value, whether \<^verbatim>\<open>commitTransaction\<close> of the
  operation's query runner goes through, and the error of binary arithmetic: what the
  double of an expression differs by from its exact value.
\<close>

record Env =
  dateStr :: string
  now :: int
  commitFails :: bool
  floatingError :: "real \<Rightarrow> real"

text \<open>
  The double that an arithmetic expression of exact value \<open>x\<close> evaluates to. The error
  is cut to a quarter of a hundredth, which the arithmetic of the source stays within on
  amounts below \<open>10\<^sup>1\<^sup>1\<close>.
\<close>

definition binaryError :: real where
  "binaryError = 1 / 400"

definition asDouble :: "Env \<Rightarrow> real \<Rightarrow> real" where
  "asDouble env x = x + max (- binaryError) (min binaryError (floatingError env x))"

subsection \<open>Reference allocator\<close>

text \<open>String helpers: the order of \<^verbatim>\<open>ORDER BY ... DESC\<close>, \<^verbatim>\<open>LIKE 'prefix%'\<close>,
  \<^verbatim>\<open>split\<close>, \<^verbatim>\<open>parseInt(_, 10)\<close> on a run of digits (\<open>None\<close> is \<^verbatim>\<open>NaN\<close>),
  \<^verbatim>\<open>toString\<close> and \<^verbatim>\<open>padStart(3, '0')\<close>.\<close>

fun str_less :: "string \<Rightarrow> string \<Rightarrow> bool" where
  "str_less [] [] = False"
| "str_less [] (y # ys) = True"
| "str_less (x # xs) [] = False"
| "str_less (x # xs) (y # ys) = ((of_char x :: nat) < of_char y \<or> (x = y \<and> str_less xs ys))"

fun latest :: "string list \<Rightarrow> string option" where
  "latest [] = None"
| "latest (x # xs) =
     (case latest xs of None \<Rightarrow> Some x
      | Some y \<Rightarrow> if str_less y x then Some x else Some y)"

definition startsWith :: "string \<Rightarrow> string \<Rightarrow> bool" where
  "startsWith pre str = (take (length pre) str = pre)"

fun split :: "char \<Rightarrow> string \<Rightarrow> string list" where
  "split c [] = [[]]"
| "split c (x # xs) =
     (if x = c then [] # split c xs
      else (case split c xs of [] \<Rightarrow> [[x]] | w # ws \<Rightarrow> (x # w) # ws))"

definition elementAt :: "'a list \<Rightarrow> nat \<Rightarrow> 'a option" where
  "elementAt xs i = (if i < length xs then Some (xs ! i) else None)"

definition digits :: string where
  "digits = ''0123456789''"

definition isDigit :: "char \<Rightarrow> bool" where
  "isDigit c = (c \<in> set digits)"

definition digitValue :: "char \<Rightarrow> nat" where
  "digitValue c = length (takeWhile (\<lambda>d. d \<noteq> c) digits)"

definition parseInt :: "string option \<Rightarrow> nat option" where
  "parseInt str =
     (case str of None \<Rightarrow> None
      | Some cs \<Rightarrow>
          (let ds = takeWhile isDigit cs
           in if ds = [] then None
              else Some (foldl (\<lambda>a c. 10 * a + digitValue c) 0 ds)))"

function toString :: "nat \<Rightarrow> string" where
  "toString n =
     (if n < 10 then [digits ! n] else toString (n div 10) @ [digits ! (n mod 10)])"
  by pat_completeness auto
termination
  by (relation "measure id") auto

declare toString.simps [simp del]

definition numberToString :: "nat option \<Rightarrow> string" where
  "numberToString v = (case v of None \<Rightarrow> ''NaN'' | Some n \<Rightarrow> toString n)"

definition padStart3 :: "string \<Rightarrow> string" where
  "padStart3 str = replicate (3 - length str) (CHR ''0'') @ str"

text \<open>
  The body shared by \<^verbatim>\<open>generatePoNumber\<close> and \<^verbatim>\<open>generatePaymentReference\<close>: the
  latest existing reference of the day decides the next sequence number.
\<close>

definition nextReference :: "string \<Rightarrow> string list \<Rightarrow> string" where
  "nextReference prefix existing =
     (let sequence =
            (case latest (filter (startsWith prefix) existing) of
               None \<Rightarrow> Some 1
             | Some ref \<Rightarrow>
                 (case parseInt (elementAt (split (CHR ''-'') ref) 2) of
                    None \<Rightarrow> None
                  | Some lastSequence \<Rightarrow> Some (lastSequence + 1)))
      in prefix @ ''-'' @ padStart3 (numberToString sequence))"

definition generatePoNumber :: "Env \<Rightarrow> Store \<Rightarrow> string" where
  "generatePoNumber env s =
     nextReference (''PO-'' @ dateStr env) (map poNumber (purchaseOrders s))"

definition generatePaymentReference :: "Env \<Rightarrow> Store \<Rightarrow> string" where
  "generatePaymentReference env s =
     nextReference (''PAY-'' @ dateStr env) (map paymentReference (payments s))"

subsection \<open>Repository access\<close>

definition findOne :: "Store \<Rightarrow> nat \<Rightarrow> error + PurchaseOrder" where
  "findOne s poId =
     (case find (\<lambda>po. po_id po = poId) (purchaseOrders s) of
        None \<Rightarrow> Inl PoNotFound
      | Some po \<Rightarrow> Inr po)"

text \<open>\<^verbatim>\<open>poRepository.save\<close> of a loaded row and \<^verbatim>\<open>poRepository.update(id, ...)\<close>:
  the row with that id is rewritten, at once and outside any query runner.\<close>

definition updateRow :: "Store \<Rightarrow> nat \<Rightarrow> (PurchaseOrder \<Rightarrow> PurchaseOrder) \<Rightarrow> Store" where
  "updateRow s poId f =
     s\<lparr>purchaseOrders := map (\<lambda>po. if po_id po = poId then f po else po) (purchaseOrders s)\<rparr>"

definition savePo :: "Store \<Rightarrow> PurchaseOrder \<Rightarrow> Store" where
  "savePo s po = updateRow s (po_id po) (\<lambda>_. po)"

definition freshId :: "nat list \<Rightarrow> nat" where
  "freshId ids = Suc (foldr max ids 0)"

definition itemIds :: "Store \<Rightarrow> nat list" where
  "itemIds s = concat (map (\<lambda>po. map item_id (items po)) (purchaseOrders s))"

subsection \<open>Purchase orders: amounts of a line\<close>

definition itemSubtotal :: "'a CreatePurchaseOrderItemDto_scheme \<Rightarrow> real" where
  "itemSubtotal i = quantity i * unitPrice i"

definition itemDiscount :: "'a CreatePurchaseOrderItemDto_scheme \<Rightarrow> real" where
  "itemDiscount i = itemSubtotal i * (orZero (discountPercent i) / 100)"

definition afterDiscount :: "'a CreatePurchaseOrderItemDto_scheme \<Rightarrow> real" where
  "afterDiscount i = itemSubtotal i - itemDiscount i"

definition itemTax :: "'a CreatePurchaseOrderItemDto_scheme \<Rightarrow> real" where
  "itemTax i = afterDiscount i * (orZero (taxRate i) / 100)"

definition calculateItemTotal :: "Env \<Rightarrow> 'a CreatePurchaseOrderItemDto_scheme \<Rightarrow> real" where
  "calculateItemTotal env i = toFixed2 (asDouble env (afterDiscount i + itemTax i))"

text \<open>The accumulation loop of \<^verbatim>\<open>create\<close> and \<^verbatim>\<open>recalculateTotals\<close>, on
  \<open>(subtotal, totalTax, totalDiscount)\<close>.\<close>

fun sumItems ::
  "'a CreatePurchaseOrderItemDto_scheme list \<Rightarrow> real \<times> real \<times> real \<Rightarrow> real \<times> real \<times> real"
where
  "sumItems [] acc = acc"
| "sumItems (i # rest) (sub, totalTax, totalDiscount) =
     sumItems rest
       (sub + itemSubtotal i, totalTax + itemTax i, totalDiscount + itemDiscount i)"

text \<open>\<^verbatim>\<open>poItemRepository.create({...itemDto, totalPrice})\<close>. A percentage that the DTO
  leaves out is stored as the default 0 of its column; the row keeps it here as not
  given, which \<^verbatim>\<open>|| 0\<close> reads as the same 0.\<close>

definition toEntity :: "Env \<Rightarrow> nat \<Rightarrow> CreatePurchaseOrderItemDto \<Rightarrow> PurchaseOrderItem" where
  "toEntity env k d =
     \<lparr>description = description d, quantity = quantity d, unitPrice = unitPrice d,
      taxRate = taxRate d, discountPercent = discountPercent d,
      item_id = k, totalPrice = calculateItemTotal env d\<rparr>"

fun toEntities ::
  "Env \<Rightarrow> nat \<Rightarrow> CreatePurchaseOrderItemDto list \<Rightarrow> PurchaseOrderItem list"
where
  "toEntities env k [] = []"
| "toEntities env k (d # ds) = toEntity env k d # toEntities env (Suc k) ds"

subsection \<open>Purchase orders: create\<close>

definition daysMap :: "PaymentTerms \<Rightarrow> int" where
  "daysMap t =
     (case t of NET_15 \<Rightarrow> 15 | NET_30 \<Rightarrow> 30 | NET_45 \<Rightarrow> 45 | NET_60 \<Rightarrow> 60
      | IMMEDIATE \<Rightarrow> 0 | ADVANCE \<Rightarrow> - 7)"

definition msPerDay :: int where
  "msPerDay = 86400000"

text \<open>\<^verbatim>\<open>dueDate.setDate(dueDate.getDate() + daysMap[paymentTerms])\<close>: the day of the
  month moves and the time of day stays.\<close>

definition calculateDueDate :: "int \<Rightarrow> PaymentTerms \<Rightarrow> int" where
  "calculateDueDate d t = d + daysMap t * msPerDay"

text \<open>What a \<^verbatim>\<open>date\<close> column keeps of a \<^verbatim>\<open>Date\<close>: the day, without the time.\<close>

definition dateColumn :: "int \<Rightarrow> int" where
  "dateColumn d = d div msPerDay * msPerDay"

text \<open>
  What a \<^verbatim>\<open>Date\<close>-typed property holds at run time: a \<^verbatim>\<open>Date\<close> object, or, on an
  entity that was loaded from the database, the string \<^verbatim>\<open>YYYY-MM-DD\<close> of the day in its
  \<^verbatim>\<open>date\<close> column. \<^verbatim>\<open>new Date() > v\<close> compares numbers: two time values, or a time
  value with the number of the string, and a date string is not a number (\<^verbatim>\<open>NaN\<close>).
\<close>

datatype DateValue = DateObject int | DateString int

definition loaded :: "int \<Rightarrow> DateValue" where
  "loaded day = DateString day"

fun laterThan :: "int \<Rightarrow> DateValue \<Rightarrow> bool" where
  "laterThan t (DateObject d) = (t > d)"
| "laterThan t (DateString day) = False"

text \<open>
  The purchase order and its items are written through the query runner, so they are
  committed together or not at all. The unique index on \<^verbatim>\<open>po_number\<close> rejects a
  number that is taken. What is returned is the row as \<^verbatim>\<open>findOne\<close> loads it again.
\<close>

definition po_create ::
  "Env \<Rightarrow> Store \<Rightarrow> CreatePurchaseOrderDto \<Rightarrow> error + (PurchaseOrder \<times> Store)"
where
  "po_create env s createDto =
     (case find (\<lambda>v. vendor_id v = c_vendorId createDto) (vendors s) of
        None \<Rightarrow> Inl VendorNotFound
      | Some vendor \<Rightarrow>
          if vendor_status vendor \<noteq> ACTIVE then Inl VendorInactive
          else
            (let number = generatePoNumber env s;
                 date = (case c_poDate createDto of None \<Rightarrow> now env | Some d \<Rightarrow> d);
                 due = calculateDueDate date (paymentTerms vendor);
                 (sub, totalTax, totalDiscount) = sumItems (c_items createDto) (0, 0, 0);
                 itemEntities = toEntities env (freshId (itemIds s)) (c_items createDto);
                 finalTax =
                   (case c_taxAmount createDto of
                      None \<Rightarrow> toFixed2 (asDouble env totalTax) | Some t \<Rightarrow> t);
                 finalDiscount =
                   (case c_discountAmount createDto of
                      None \<Rightarrow> toFixed2 (asDouble env totalDiscount) | Some d \<Rightarrow> d);
                 total = toFixed2 (asDouble env (sub - finalDiscount + finalTax));
                 purchaseOrder =
                   \<lparr>po_id = freshId (map po_id (purchaseOrders s)),
                    poNumber = number,
                    vendorId = vendor_id vendor,
                    poDate = dateColumn date,
                    dueDate = dateColumn due,
                    totalAmount = total,
                    paidAmount = 0,
                    outstandingAmount = total,
                    subtotal = toFixed2 (asDouble env sub),
                    status = PENDING,
                    po_notes = c_notes createDto,
                    referenceNumber = c_referenceNumber createDto,
                    shippingAddress = c_shippingAddress createDto,
                    billingAddress = c_billingAddress createDto,
                    taxAmount = finalTax,
                    discountAmount = finalDiscount,
                    items = itemEntities\<rparr>
             in if number \<in> set (map poNumber (purchaseOrders s)) then Inl QueryFailed
                else if commitFails env then Inl QueryFailed
                else Inr (purchaseOrder,
                          s\<lparr>purchaseOrders := purchaseOrders s @ [purchaseOrder]\<rparr>)))"

subsection \<open>Purchase orders: update\<close>

definition validTransitions :: "PurchaseOrderStatus \<Rightarrow> PurchaseOrderStatus list" where
  "validTransitions cur =
     (case cur of
        PENDING \<Rightarrow> [APPROVED, CANCELLED]
      | APPROVED \<Rightarrow> [PARTIALLY_PAID, PAID, CANCELLED]
      | PARTIALLY_PAID \<Rightarrow> [PAID, CANCELLED]
      | PAID \<Rightarrow> []
      | CANCELLED \<Rightarrow> []
      | OVERDUE \<Rightarrow> [PARTIALLY_PAID, PAID, CANCELLED])"

definition validateStatusTransition ::
  "PurchaseOrderStatus \<Rightarrow> PurchaseOrderStatus \<Rightarrow> error option"
where
  "validateStatusTransition currentStatus newStatus =
     (if newStatus \<in> set (validTransitions currentStatus) then None
      else Some InvalidStatusTransition)"

text \<open>\<^verbatim>\<open>Object.keys(updateDto).some(key => key !== 'notes')\<close>\<close>

definition someKeyNotNotes :: "UpdatePurchaseOrderDto \<Rightarrow> bool" where
  "someKeyNotNotes d =
     (u_poDate d \<noteq> None \<or> u_referenceNumber d \<noteq> None \<or> u_shippingAddress d \<noteq> None \<or>
      u_billingAddress d \<noteq> None \<or> u_taxAmount d \<noteq> None \<or> u_discountAmount d \<noteq> None \<or>
      u_status d \<noteq> None \<or> u_dueDate d \<noteq> None)"

text \<open>\<^verbatim>\<open>Object.assign(purchaseOrder, updateDto)\<close>: each property that is present
  overwrites the field of its name; the two dates go into \<^verbatim>\<open>date\<close> columns.\<close>

definition assignDto :: "PurchaseOrder \<Rightarrow> UpdatePurchaseOrderDto \<Rightarrow> PurchaseOrder" where
  "assignDto po d =
     po\<lparr>poDate := (case u_poDate d of None \<Rightarrow> poDate po | Some v \<Rightarrow> dateColumn v),
        po_notes := (case u_notes d of None \<Rightarrow> po_notes po | Some v \<Rightarrow> Some v),
        referenceNumber :=
          (case u_referenceNumber d of None \<Rightarrow> referenceNumber po | Some v \<Rightarrow> Some v),
        shippingAddress :=
          (case u_shippingAddress d of None \<Rightarrow> shippingAddress po | Some v \<Rightarrow> Some v),
        billingAddress :=
          (case u_billingAddress d of None \<Rightarrow> billingAddress po | Some v \<Rightarrow> Some v),
        taxAmount := (case u_taxAmount d of None \<Rightarrow> taxAmount po | Some v \<Rightarrow> v),
        discountAmount :=
          (case u_discountAmount d of None \<Rightarrow> discountAmount po | Some v \<Rightarrow> v),
        status := (case u_status d of None \<Rightarrow> status po | Some v \<Rightarrow> v),
        dueDate := (case u_dueDate d of None \<Rightarrow> dueDate po | Some v \<Rightarrow> dateColumn v)\<rparr>"

definition po_update ::
  "Store \<Rightarrow> nat \<Rightarrow> UpdatePurchaseOrderDto \<Rightarrow> error + (PurchaseOrder \<times> Store)"
where
  "po_update s poId updateDto =
     (case findOne s poId of
        Inl e \<Rightarrow> Inl e
      | Inr purchaseOrder \<Rightarrow>
          (case (case u_status updateDto of
                   None \<Rightarrow> None
                 | Some st \<Rightarrow> validateStatusTransition (status purchaseOrder) st) of
             Some e \<Rightarrow> Inl e
           | None \<Rightarrow>
               if (status purchaseOrder = PAID \<or> status purchaseOrder = CANCELLED) \<and>
                  someKeyNotNotes updateDto
               then Inl ImmutableAfterTerminal
               else
                 (let po' = assignDto purchaseOrder updateDto
                  in Inr (po', savePo s po'))))"

subsection \<open>Purchase orders: cancel\<close>

definition po_cancel :: "Store \<Rightarrow> nat \<Rightarrow> error + (PurchaseOrder \<times> Store)" where
  "po_cancel s poId =
     (case findOne s poId of
        Inl e \<Rightarrow> Inl e
      | Inr purchaseOrder \<Rightarrow>
          if status purchaseOrder = PAID then Inl CannotCancelPaid
          else if paidAmount purchaseOrder > 0 then Inl CannotCancelWithPayments
          else
            (let po' = purchaseOrder\<lparr>status := CANCELLED\<rparr>
             in Inr (po', savePo s po')))"

subsection \<open>Purchase orders: items\<close>

definition recalculateTotals :: "Env \<Rightarrow> Store \<Rightarrow> nat \<Rightarrow> error + Store" where
  "recalculateTotals env s poId =
     (case findOne s poId of
        Inl e \<Rightarrow> Inl e
      | Inr purchaseOrder \<Rightarrow>
          (let (sub, totalTax, totalDiscount) = sumItems (items purchaseOrder) (0, 0, 0);
               total = sub - totalDiscount + totalTax;
               outstanding = total - paidAmount purchaseOrder
           in Inr (updateRow s poId
                    (\<lambda>po. po\<lparr>subtotal := toFixed2 (asDouble env sub),
                              taxAmount := toFixed2 (asDouble env totalTax),
                              discountAmount := toFixed2 (asDouble env totalDiscount),
                              totalAmount := toFixed2 (asDouble env total),
                              outstandingAmount := toFixed2 (asDouble env outstanding)\<rparr>))))"

definition thenFindOne :: "error + Store \<Rightarrow> nat \<Rightarrow> error + (PurchaseOrder \<times> Store)" where
  "thenFindOne r poId =
     (case r of
        Inl e \<Rightarrow> Inl e
      | Inr s \<Rightarrow> (case findOne s poId of Inl e \<Rightarrow> Inl e | Inr po \<Rightarrow> Inr (po, s)))"

definition addItem ::
  "Env \<Rightarrow> Store \<Rightarrow> nat \<Rightarrow> CreatePurchaseOrderItemDto \<Rightarrow> error + (PurchaseOrder \<times> Store)"
where
  "addItem env s poId itemDto =
     (case findOne s poId of
        Inl e \<Rightarrow> Inl e
      | Inr purchaseOrder \<Rightarrow>
          if status purchaseOrder \<noteq> PENDING \<and> status purchaseOrder \<noteq> APPROVED
          then Inl InvalidStateForMutation
          else
            (let item = toEntity env (freshId (itemIds s)) itemDto;
                 s1 = updateRow s poId (\<lambda>po. po\<lparr>items := items po @ [item]\<rparr>)
             in thenFindOne (recalculateTotals env s1 poId) poId))"

text \<open>\<^verbatim>\<open>Object.assign(item, updateDto)\<close>, then the line total is computed again.\<close>

definition assignItemDto ::
  "Env \<Rightarrow> PurchaseOrderItem \<Rightarrow> UpdatePurchaseOrderItemDto \<Rightarrow> PurchaseOrderItem"
where
  "assignItemDto env item d =
     (let item' =
            item\<lparr>description := (case ui_description d of None \<Rightarrow> description item | Some v \<Rightarrow> v),
                 quantity := (case ui_quantity d of None \<Rightarrow> quantity item | Some v \<Rightarrow> v),
                 unitPrice := (case ui_unitPrice d of None \<Rightarrow> unitPrice item | Some v \<Rightarrow> v),
                 taxRate := (case ui_taxRate d of None \<Rightarrow> taxRate item | Some v \<Rightarrow> Some v),
                 discountPercent :=
                   (case ui_discountPercent d of None \<Rightarrow> discountPercent item | Some v \<Rightarrow> Some v)\<rparr>
      in item'\<lparr>totalPrice := calculateItemTotal env item'\<rparr>)"

definition updateItem ::
  "Env \<Rightarrow> Store \<Rightarrow> nat \<Rightarrow> nat \<Rightarrow> UpdatePurchaseOrderItemDto \<Rightarrow>
   error + (PurchaseOrder \<times> Store)"
where
  "updateItem env s poId itemId updateDto =
     (case findOne s poId of
        Inl e \<Rightarrow> Inl e
      | Inr purchaseOrder \<Rightarrow>
          if status purchaseOrder \<noteq> PENDING \<and> status purchaseOrder \<noteq> APPROVED
          then Inl InvalidStateForMutation
          else
            (case find (\<lambda>i. item_id i = itemId) (items purchaseOrder) of
               None \<Rightarrow> Inl ItemNotFound
             | Some item \<Rightarrow>
                 (let item' = assignItemDto env item updateDto;
                      s1 = updateRow s poId
                             (\<lambda>po. po\<lparr>items :=
                                map (\<lambda>i. if item_id i = itemId then item' else i) (items po)\<rparr>)
                  in thenFindOne (recalculateTotals env s1 poId) poId)))"

definition removeItem ::
  "Env \<Rightarrow> Store \<Rightarrow> nat \<Rightarrow> nat \<Rightarrow> error + (PurchaseOrder \<times> Store)"
where
  "removeItem env s poId itemId =
     (case findOne s poId of
        Inl e \<Rightarrow> Inl e
      | Inr purchaseOrder \<Rightarrow>
          if status purchaseOrder \<noteq> PENDING \<and> status purchaseOrder \<noteq> APPROVED
          then Inl InvalidStateForMutation
          else if length (items purchaseOrder) \<le> 1 then Inl LastItemRemovalForbidden
          else
            (case find (\<lambda>i. item_id i = itemId) (items purchaseOrder) of
               None \<Rightarrow> Inl ItemNotFound
             | Some item \<Rightarrow>
                 (let s1 = updateRow s poId
                             (\<lambda>po. po\<lparr>items :=
                                filter (\<lambda>i. item_id i \<noteq> itemId) (items po)\<rparr>)
                  in thenFindOne (recalculateTotals env s1 poId) poId)))"

subsection \<open>Purchase orders: overdue sweep\<close>

text \<open>The \<^verbatim>\<open>WHERE\<close> clause of the bulk update; \<open>today\<close> is its \<^verbatim>\<open>new Date()\<close>,
  which the database compares with the day in the column at 00:00.\<close>

definition overdueCandidate :: "int \<Rightarrow> PurchaseOrder \<Rightarrow> bool" where
  "overdueCandidate today po =
     (dueDate po < today \<and> status po \<in> set [PENDING, APPROVED, PARTIALLY_PAID] \<and>
      outstandingAmount po > 0)"

definition markOverduePurchaseOrders :: "int \<Rightarrow> Store \<Rightarrow> nat \<times> Store" where
  "markOverduePurchaseOrders today s =
     (length (filter (overdueCandidate today) (purchaseOrders s)),
      s\<lparr>purchaseOrders :=
          map (\<lambda>po. if overdueCandidate today po then po\<lparr>status := OVERDUE\<rparr> else po)
            (purchaseOrders s)\<rparr>)"

subsection \<open>Purchase orders: the ledger side of a payment\<close>

text \<open>Both functions start from \<^verbatim>\<open>this.findOne(poId)\<close>, so the order they work on is
  a loaded one.\<close>

definition updatePaymentAmounts ::
  "Env \<Rightarrow> Store \<Rightarrow> nat \<Rightarrow> real \<Rightarrow> error + (PurchaseOrder \<times> Store)"
where
  "updatePaymentAmounts env s poId additionalPayment =
     (case findOne s poId of
        Inl e \<Rightarrow> Inl e
      | Inr purchaseOrder \<Rightarrow>
          (let newPaidAmount =
                 toFixed2 (asDouble env (paidAmount purchaseOrder + additionalPayment));
               newOutstanding =
                 toFixed2 (asDouble env (totalAmount purchaseOrder - newPaidAmount))
           in if newPaidAmount > totalAmount purchaseOrder then Inl PaymentExceedsTotal
              else
                (let newStatus =
                       (if newOutstanding \<le> 0 then PAID
                        else if newPaidAmount > 0 then PARTIALLY_PAID
                        else status purchaseOrder);
                     po' = purchaseOrder\<lparr>paidAmount := newPaidAmount,
                                          outstandingAmount := max 0 newOutstanding,
                                          status := newStatus\<rparr>
                 in Inr (po', savePo s po'))))"

definition reversePaymentAmount ::
  "Env \<Rightarrow> Store \<Rightarrow> nat \<Rightarrow> real \<Rightarrow> error + (PurchaseOrder \<times> Store)"
where
  "reversePaymentAmount env s poId amount =
     (case findOne s poId of
        Inl e \<Rightarrow> Inl e
      | Inr purchaseOrder \<Rightarrow>
          (let newPaidAmount = toFixed2 (asDouble env (paidAmount purchaseOrder - amount));
               newOutstanding =
                 toFixed2 (asDouble env (totalAmount purchaseOrder - newPaidAmount));
               newStatus =
                 (if newPaidAmount \<le> 0
                  then (if laterThan (now env) (loaded (dueDate purchaseOrder))
                        then OVERDUE else APPROVED)
                  else PARTIALLY_PAID);
               po' = purchaseOrder\<lparr>paidAmount := max 0 newPaidAmount,
                                    outstandingAmount := newOutstanding,
                                    status := newStatus\<rparr>
           in Inr (po', savePo s po')))"

subsection \<open>Payments\<close>

definition payment_findOne :: "Store \<Rightarrow> nat \<Rightarrow> error + Payment" where
  "payment_findOne s paymentId =
     (case find (\<lambda>p. payment_id p = paymentId) (payments s) of
        None \<Rightarrow> Inl PaymentNotFound
      | Some p \<Rightarrow> Inr p)"

text \<open>
  \<^verbatim>\<open>PaymentsService.create\<close>. The payment row is written with
  \<^verbatim>\<open>queryRunner.manager.save\<close> and reaches the database at \<^verbatim>\<open>commitTransaction\<close>; the
  purchase order is written inside \<^verbatim>\<open>poService.updatePaymentAmounts\<close> with
  \<^verbatim>\<open>this.poRepository.save\<close>, which does not go through the query runner. The result
  pairs what the caller gets with the database afterwards, since a throw from inside
  the \<^verbatim>\<open>try\<close> block comes after writes. The payment returned is the row as
  \<^verbatim>\<open>findOne\<close> loads it again.
\<close>

definition payment_create ::
  "Env \<Rightarrow> Store \<Rightarrow> CreatePaymentDto \<Rightarrow> (error + Payment) \<times> Store"
where
  "payment_create env s createDto =
     (case findOne s (p_purchaseOrderId createDto) of
        Inl e \<Rightarrow> (Inl e, s)
      | Inr purchaseOrder \<Rightarrow>
          if status purchaseOrder = CANCELLED then (Inl PoCancelled, s)
          else if status purchaseOrder = PAID then (Inl PoAlreadyPaid, s)
          else if status purchaseOrder = PENDING then (Inl PoNotApproved, s)
          else if p_amountPaid createDto > outstandingAmount purchaseOrder
          then (Inl PaymentExceedsOutstanding, s)
          else
            (let reference = generatePaymentReference env s;
                 payment =
                   \<lparr>payment_id = freshId (map payment_id (payments s)),
                    paymentReference = reference,
                    purchaseOrderId = po_id purchaseOrder,
                    paymentDate =
                      dateColumn
                        (case p_paymentDate createDto of None \<Rightarrow> now env | Some d \<Rightarrow> d),
                    amountPaid = p_amountPaid createDto,
                    payment_status = COMPLETED,
                    voidedAt = None,
                    voidReason = None\<rparr>
             in if reference \<in> set (map paymentReference (payments s))
                then (Inl QueryFailed, s)
                else
                  (case updatePaymentAmounts env s (po_id purchaseOrder)
                          (p_amountPaid createDto) of
                     Inl e \<Rightarrow> (Inl e, s)
                   | Inr (po', s1) \<Rightarrow>
                       if commitFails env then (Inl QueryFailed, s1)
                       else (Inr payment, s1\<lparr>payments := payments s1 @ [payment]\<rparr>))))"

text \<open>\<^verbatim>\<open>PaymentsService.void\<close>, with the same two ways of writing.\<close>

definition payment_void ::
  "Env \<Rightarrow> Store \<Rightarrow> nat \<Rightarrow> string \<Rightarrow> (error + Payment) \<times> Store"
where
  "payment_void env s paymentId reason =
     (case payment_findOne s paymentId of
        Inl e \<Rightarrow> (Inl e, s)
      | Inr payment \<Rightarrow>
          if payment_status payment = VOIDED then (Inl PaymentAlreadyVoided, s)
          else
            (let payment' = payment\<lparr>payment_status := VOIDED,
                                     voidedAt := Some (now env),
                                     voidReason := Some reason\<rparr>
             in (case reversePaymentAmount env s (purchaseOrderId payment) (amountPaid payment) of
                   Inl e \<Rightarrow> (Inl e, s)
                 | Inr (po', s1) \<Rightarrow>
                     if commitFails env then (Inl QueryFailed, s1)
                     else (Inr payment',
                           s1\<lparr>payments :=
                                map (\<lambda>p. if payment_id p = paymentId then payment' else p)
                                  (payments s1)\<rparr>))))"

subsection \<open>The three item routes as one operation\<close>

datatype ItemMutation =
    AddItem CreatePurchaseOrderItemDto
  | UpdateItem nat UpdatePurchaseOrderItemDto
  | RemoveItem nat

definition mutateItems ::
  "Env \<Rightarrow> Store \<Rightarrow> nat \<Rightarrow> ItemMutation \<Rightarrow> error + (PurchaseOrder \<times> Store)"
where
  "mutateItems env s poId m =
     (case m of
        AddItem itemDto \<Rightarrow> addItem env s poId itemDto
      | UpdateItem itemId updateDto \<Rightarrow> updateItem env s poId itemId updateDto
      | RemoveItem itemId \<Rightarrow> removeItem env s poId itemId)"

subsection \<open>Sequences of operations\<close>

text \<open>
  The operations that write, as the controllers expose them, and the database they
  leave behind, also when they throw. \<open>validated\<close> is what the validation pipe
  has checked of a payment before the service sees it: a positive amount of at most two
  decimals.
\<close>

datatype Operation =
    CreatePo CreatePurchaseOrderDto
  | UpdatePo nat UpdatePurchaseOrderDto
  | MutateItems nat ItemMutation
  | CancelPo nat
  | MarkOverdue
  | RecordPayment CreatePaymentDto
  | VoidPayment nat string

definition storeOf :: "error + ('a \<times> Store) \<Rightarrow> Store \<Rightarrow> Store" where
  "storeOf r s = (case r of Inl e \<Rightarrow> s | Inr (x, s') \<Rightarrow> s')"

definition perform :: "Env \<Rightarrow> Store \<Rightarrow> Operation \<Rightarrow> Store" where
  "perform env s op =
     (case op of
        CreatePo dto \<Rightarrow> storeOf (po_create env s dto) s
      | UpdatePo poId dto \<Rightarrow> storeOf (po_update s poId dto) s
      | MutateItems poId m \<Rightarrow> storeOf (mutateItems env s poId m) s
      | CancelPo poId \<Rightarrow> storeOf (po_cancel s poId) s
      | MarkOverdue \<Rightarrow> snd (markOverduePurchaseOrders (now env) s)
      | RecordPayment dto \<Rightarrow> snd (payment_create env s dto)
      | VoidPayment paymentId reason \<Rightarrow> snd (payment_void env s paymentId reason))"

definition validated :: "Operation \<Rightarrow> bool" where
  "validated op =
     (case op of
        RecordPayment dto \<Rightarrow> 0 < p_amountPaid dto \<and> twoDecimals (p_amountPaid dto)
      | _ \<Rightarrow> True)"

fun run :: "Store \<Rightarrow> (Env \<times> Operation) list \<Rightarrow> Store" where
  "run s [] = s"
| "run s ((env, op) # rest) = run (perform env s op) rest"

definition initialStore :: "Vendor list \<Rightarrow> Store" where
  "initialStore vs = \<lparr>vendors = vs, purchaseOrders = [], payments = []\<rparr>"

subsection \<open>Consistency of the ledger\<close>

text \<open>
  The paid amount of every purchase order is the sum of its COMPLETED payments; payment
  ids are unique, every payment has a positive amount of two decimals and belongs to a
  purchase order that exists, and totals have two decimals.
\<close>

definition completedFor :: "nat \<Rightarrow> Payment list \<Rightarrow> real" where
  "completedFor poId ps =
     sum_list (map amountPaid
       (filter (\<lambda>p. purchaseOrderId p = poId \<and> payment_status p = COMPLETED) ps))"

definition ledgerConsistent :: "Store \<Rightarrow> bool" where
  "ledgerConsistent s =
     (distinct (map payment_id (payments s)) \<and>
      (\<forall>p \<in> set (payments s).
          0 < amountPaid p \<and> twoDecimals (amountPaid p) \<and>
          (\<exists>po \<in> set (purchaseOrders s). po_id po = purchaseOrderId p)) \<and>
      (\<forall>po \<in> set (purchaseOrders s).
          twoDecimals (totalAmount po) \<and>
          paidAmount po = completedFor (po_id po) (payments s)))"

subsection \<open>The monetary invariant of the specification\<close>

definition balanceInvariant :: "PurchaseOrder \<Rightarrow> bool" where
  "balanceInvariant po =
     (\<bar>paidAmount po + outstandingAmount po - totalAmount po\<bar> \<le> 1 / 100)"

definition totalInvariant :: "PurchaseOrder \<Rightarrow> bool" where
  "totalInvariant po =
     (\<bar>totalAmount po - (subtotal po - discountAmount po + taxAmount po)\<bar> \<le> 1 / 100)"

subsection \<open>The steps of an item mutation\<close>

text \<open>Used in the proofs only: the guards that the three routes check before they
  write, the item rows they write, and the totals that \<^verbatim>\<open>recalculateTotals\<close> stores.\<close>

definition applicable :: "PurchaseOrder \<Rightarrow> ItemMutation \<Rightarrow> bool" where
  "applicable po m =
     ((status po = PENDING \<or> status po = APPROVED) \<and>
      (case m of
         AddItem itemDto \<Rightarrow> True
       | UpdateItem itemId updateDto \<Rightarrow> find (\<lambda>i. item_id i = itemId) (items po) \<noteq> None
       | RemoveItem itemId \<Rightarrow>
           1 < length (items po) \<and> find (\<lambda>i. item_id i = itemId) (items po) \<noteq> None))"

definition itemsAfter ::
  "Env \<Rightarrow> Store \<Rightarrow> PurchaseOrder \<Rightarrow> ItemMutation \<Rightarrow> PurchaseOrderItem list"
where
  "itemsAfter env s po m =
     (case m of
        AddItem itemDto \<Rightarrow> items po @ [toEntity env (freshId (itemIds s)) itemDto]
      | UpdateItem itemId updateDto \<Rightarrow>
          (case find (\<lambda>i. item_id i = itemId) (items po) of
             None \<Rightarrow> items po
           | Some item \<Rightarrow>
               map (\<lambda>i. if item_id i = itemId then assignItemDto env item updateDto else i)
                 (items po))
      | RemoveItem itemId \<Rightarrow> filter (\<lambda>i. item_id i \<noteq> itemId) (items po))"

definition recomputed :: "Env \<Rightarrow> PurchaseOrder \<Rightarrow> bool" where
  "recomputed env po =
     (let sub = sum_list (map itemSubtotal (items po));
          tax = sum_list (map itemTax (items po));
          disc = sum_list (map itemDiscount (items po))
      in subtotal po = toFixed2 (asDouble env sub) \<and> taxAmount po = toFixed2 (asDouble env tax) \<and>
         discountAmount po = toFixed2 (asDouble env disc) \<and>
         totalAmount po = toFixed2 (asDouble env (sub - disc + tax)) \<and>
         outstandingAmount po = toFixed2 (asDouble env (sub - disc + tax - paidAmount po)))"

subsection \<open>The amounts of the specification\<close>

text \<open>
  The line total of the specification is
  \<^verbatim>\<open>(quantity * unitPrice) * (1 - discountPercent/100) * (1 + taxRatePercent/100)\<close>: the
  line's subtotal less its discount, plus the tax on what is left. The three parts, with
  a percentage that is not given counting as 0, the default of its column:
\<close>

definition percentage :: "real option \<Rightarrow> real" where
  "percentage v = (case v of None \<Rightarrow> 0 | Some p \<Rightarrow> p)"

definition specLineSubtotal :: "'a CreatePurchaseOrderItemDto_scheme \<Rightarrow> real" where
  "specLineSubtotal i = quantity i * unitPrice i"

definition specLineDiscount :: "'a CreatePurchaseOrderItemDto_scheme \<Rightarrow> real" where
  "specLineDiscount i = quantity i * unitPrice i * (percentage (discountPercent i) / 100)"

definition specLineTax :: "'a CreatePurchaseOrderItemDto_scheme \<Rightarrow> real" where
  "specLineTax i =
     quantity i * unitPrice i * (1 - percentage (discountPercent i) / 100) *
     (percentage (taxRate i) / 100)"

text \<open>
  \<open>r\<close> is \<open>x\<close> rounded to two decimals: an amount of two decimals that is off by at most
  half a hundredth for the rounding and a quarter of a hundredth for the binary
  arithmetic before it.
\<close>

definition roundedTo2 :: "real \<Rightarrow> real \<Rightarrow> bool" where
  "roundedTo2 x r = (twoDecimals r \<and> \<bar>r - x\<bar> \<le> 1 / 200 + 1 / 400)"


section \<open>Example data\<close>

text \<open>14 January 2026, at 00:00 and at 10:00.\<close>

definition exampleDay :: int where
  "exampleDay = 1768348800000"

definition exampleNow :: int where
  "exampleNow = 1768384800000"

definition exampleEnv :: Env where
  "exampleEnv =
     \<lparr>dateStr = ''20260114'', now = exampleNow, commitFails = False,
      floatingError = (\<lambda>x. 0)\<rparr>"

definition exampleVendor :: Vendor where
  "exampleVendor = \<lparr>vendor_id = 1, vendor_status = ACTIVE, paymentTerms = NET_30\<rparr>"

definition exampleItem :: PurchaseOrderItem where
  "exampleItem =
     \<lparr>description = ''Paper'', quantity = 10, unitPrice = 1000, taxRate = Some 18,
      discountPercent = None, item_id = 1, totalPrice = 11800\<rparr>"

text \<open>Scenario 1 of the specification after approval: 10 x 1000 at 18% tax.\<close>

definition approvedPo :: PurchaseOrder where
  "approvedPo =
     \<lparr>po_id = 1, poNumber = ''PO-20260114-001'', vendorId = 1,
      poDate = exampleDay, dueDate = exampleDay + 30 * msPerDay,
      totalAmount = 11800, paidAmount = 0, outstandingAmount = 11800, subtotal = 10000,
      status = APPROVED, po_notes = None, referenceNumber = None, shippingAddress = None,
      billingAddress = None, taxAmount = 1800, discountAmount = 0, items = [exampleItem]\<rparr>"

definition approvedStore :: Store where
  "approvedStore =
     \<lparr>vendors = [exampleVendor], purchaseOrders = [approvedPo], payments = []\<rparr>"

definition payment5000 :: CreatePaymentDto where
  "payment5000 = \<lparr>p_purchaseOrderId = 1, p_amountPaid = 5000, p_paymentDate = None\<rparr>"

text \<open>Scenario 2: the first payment of 5000 has been recorded.\<close>

definition examplePayment :: Payment where
  "examplePayment =
     \<lparr>payment_id = 1, paymentReference = ''PAY-20260114-001'', purchaseOrderId = 1,
      paymentDate = exampleDay, amountPaid = 5000, payment_status = COMPLETED, voidedAt = None,
      voidReason = None\<rparr>"

definition partlyPaidPo :: PurchaseOrder where
  "partlyPaidPo =
     approvedPo\<lparr>paidAmount := 5000, outstandingAmount := 6800, status := PARTIALLY_PAID\<rparr>"

definition partlyPaidStore :: Store where
  "partlyPaidStore =
     \<lparr>vendors = [exampleVendor], purchaseOrders = [partlyPaidPo],
      payments = [examplePayment]\<rparr>"

text \<open>Scenario 3: the order is fully paid.\<close>

definition paidPo :: PurchaseOrder where
  "paidPo = approvedPo\<lparr>paidAmount := 11800, outstandingAmount := 0, status := PAID\<rparr>"

definition paidStore :: Store where
  "paidStore = \<lparr>vendors = [exampleVendor], purchaseOrders = [paidPo], payments = []\<rparr>"

definition payment1 :: CreatePaymentDto where
  "payment1 = \<lparr>p_purchaseOrderId = 1, p_amountPaid = 1, p_paymentDate = None\<rparr>"

definition payment20000 :: CreatePaymentDto where
  "payment20000 = \<lparr>p_purchaseOrderId = 1, p_amountPaid = 20000, p_paymentDate = None\<rparr>"

text \<open>The same clock with a commit that does not go through.\<close>

definition failingEnv :: Env where
  "failingEnv = exampleEnv\<lparr>commitFails := True\<rparr>"

text \<open>The payment of 5000 after it has been voided.\<close>

definition voidedPayment :: Payment where
  "voidedPayment =
     examplePayment\<lparr>payment_status := VOIDED, voidedAt := Some exampleNow,
                    voidReason := Some ''duplicate''\<rparr>"

definition voidedStore :: Store where
  "voidedStore =
     \<lparr>vendors = [exampleVendor], purchaseOrders = [approvedPo], payments = [voidedPayment]\<rparr>"

text \<open>
  What a failed commit of that void leaves behind: the order is reversed and the payment
  is still COMPLETED. Voiding the payment again reverses the order a second time.
\<close>

definition halfVoidedStore :: Store where
  "halfVoidedStore =
     \<lparr>vendors = [exampleVendor], purchaseOrders = [approvedPo], payments = [examplePayment]\<rparr>"

definition twiceReversedPo :: PurchaseOrder where
  "twiceReversedPo = approvedPo\<lparr>outstandingAmount := 16800\<rparr>"

definition twiceReversedStore :: Store where
  "twiceReversedStore =
     \<lparr>vendors = [exampleVendor], purchaseOrders = [twiceReversedPo],
      payments = [voidedPayment]\<rparr>"

text \<open>23 February 2026, 10:00: forty days later, ten days after the order was due.\<close>

definition lateEnv :: Env where
  "lateEnv = exampleEnv\<lparr>dateStr := ''20260223'', now := exampleNow + 40 * msPerDay\<rparr>"

definition lateVoidedPayment :: Payment where
  "lateVoidedPayment = voidedPayment\<lparr>voidedAt := Some (exampleNow + 40 * msPerDay)\<rparr>"

definition lateVoidedStore :: Store where
  "lateVoidedStore =
     \<lparr>vendors = [exampleVendor], purchaseOrders = [approvedPo],
      payments = [lateVoidedPayment]\<rparr>"

subsection \<open>Purchase order creation\<close>

definition exampleItemDto :: CreatePurchaseOrderItemDto where
  "exampleItemDto =
     \<lparr>description = ''Paper'', quantity = 10, unitPrice = 1000, taxRate = Some 18,
      discountPercent = None\<rparr>"

definition exampleCreateDto :: CreatePurchaseOrderDto where
  "exampleCreateDto =
     \<lparr>c_vendorId = 1, c_poDate = None, c_items = [exampleItemDto], c_notes = None,
      c_referenceNumber = None, c_shippingAddress = None, c_billingAddress = None,
      c_taxAmount = None, c_discountAmount = None\<rparr>"


definition pendingPo :: PurchaseOrder where
  "pendingPo = approvedPo\<lparr>status := PENDING\<rparr>"

definition pendingStore :: Store where
  "pendingStore = \<lparr>vendors = [exampleVendor], purchaseOrders = [pendingPo], payments = []\<rparr>"

definition po999 :: PurchaseOrder where
  "po999 = approvedPo\<lparr>po_id := 999, poNumber := ''PO-20260114-999''\<rparr>"

definition po1000 :: PurchaseOrder where
  "po1000 = pendingPo\<lparr>po_id := 1000, poNumber := ''PO-20260114-1000'',
     items := [exampleItem\<lparr>item_id := 2\<rparr>]\<rparr>"

definition store999 :: Store where
  "store999 = \<lparr>vendors = [exampleVendor], purchaseOrders = [approvedPo, po999], payments = []\<rparr>"

definition store1000 :: Store where
  "store1000 =
     \<lparr>vendors = [exampleVendor], purchaseOrders = [approvedPo, po999, po1000], payments = []\<rparr>"

text \<open>A vendor on advance terms.\<close>

definition advanceVendor :: Vendor where
  "advanceVendor = \<lparr>vendor_id = 2, vendor_status = ACTIVE, paymentTerms = ADVANCE\<rparr>"

definition advanceStore :: Store where
  "advanceStore = \<lparr>vendors = [exampleVendor, advanceVendor], purchaseOrders = [], payments = []\<rparr>"

definition advanceCreateDto :: CreatePurchaseOrderDto where
  "advanceCreateDto = exampleCreateDto\<lparr>c_vendorId := 2\<rparr>"

definition advancePo :: PurchaseOrder where
  "advancePo = pendingPo\<lparr>vendorId := 2, dueDate := exampleDay - 7 * msPerDay\<rparr>"

subsection \<open>Sweep\<close>

definition secondPaidPo :: PurchaseOrder where
  "secondPaidPo = paidPo\<lparr>po_id := 2, poNumber := ''PO-20260114-002''\<rparr>"

definition thirdPendingPo :: PurchaseOrder where
  "thirdPendingPo = pendingPo\<lparr>po_id := 3, poNumber := ''PO-20260114-003''\<rparr>"

definition sweepStore :: Store where
  "sweepStore =
     \<lparr>vendors = [exampleVendor], purchaseOrders = [approvedPo, secondPaidPo, thirdPendingPo],
      payments = []\<rparr>"

definition sweptStore :: Store where
  "sweptStore =
     \<lparr>vendors = [exampleVendor],
      purchaseOrders = [approvedPo\<lparr>status := OVERDUE\<rparr>, secondPaidPo,
                        thirdPendingPo\<lparr>status := OVERDUE\<rparr>],
      payments = []\<rparr>"

subsection \<open>Item mutations\<close>


















definition approveWithTax :: UpdatePurchaseOrderDto where
  "approveWithTax =
     \<lparr>u_poDate = None, u_notes = None, u_referenceNumber = None, u_shippingAddress = None,
      u_billingAddress = None, u_taxAmount = Some 500, u_discountAmount = None,
      u_status = Some APPROVED, u_dueDate = None\<rparr>"

text \<open>An update that only approves.\<close>

definition approveDto :: UpdatePurchaseOrderDto where
  "approveDto =
     \<lparr>u_poDate = None, u_notes = None, u_referenceNumber = None, u_shippingAddress = None,
      u_billingAddress = None, u_taxAmount = None, u_discountAmount = None,
      u_status = Some APPROVED, u_dueDate = None\<rparr>"

definition retaxedPo :: PurchaseOrder where
  "retaxedPo = approvedPo\<lparr>taxAmount := 500\<rparr>"

definition retaxedStore :: Store where
  "retaxedStore = \<lparr>vendors = [exampleVendor], purchaseOrders = [retaxedPo], payments = []\<rparr>"

subsection \<open>Payment references at the end of the sequence\<close>

definition payment999 :: Payment where
  "payment999 = voidedPayment\<lparr>payment_id := 999, paymentReference := ''PAY-20260114-999''\<rparr>"

definition payment1000 :: Payment where
  "payment1000 =
     voidedPayment\<lparr>payment_id := 1000, paymentReference := ''PAY-20260114-1000''\<rparr>"

definition paymentStore999 :: Store where
  "paymentStore999 = partlyPaidStore\<lparr>payments := [examplePayment, payment999]\<rparr>"

definition paymentStore1000 :: Store where
  "paymentStore1000 =
     partlyPaidStore\<lparr>payments := [examplePayment, payment999, payment1000]\<rparr>"

section \<open>Properties\<close>

subsection \<open>Rounding to two decimals\<close>

lemma twoDecimals_iff: "twoDecimals x \<longleftrightarrow> (\<exists>k::int. x = of_int k / 100)"
  unfolding twoDecimals_def
proof
  define n where "n = \<lfloor>x * 100\<rfloor>"
  assume "of_int \<lfloor>x * 100\<rfloor> = x * 100"
  then have "x = of_int n / 100" unfolding n_def by linarith
  then show "\<exists>k::int. x = of_int k / 100" by blast
next
  assume "\<exists>k::int. x = of_int k / 100"
  then obtain k :: int where "x = of_int k / 100" by blast
  then show "of_int \<lfloor>x * 100\<rfloor> = x * 100" by simp
qed

lemma twoDecimals_toFixed2: "twoDecimals (toFixed2 x)"
  unfolding twoDecimals_iff toFixed2_def
  by (cases "x < 0") (auto intro: exI[of _ "- \<lfloor>- x * 100 + 1 / 2\<rfloor>"])

text \<open>The rounding error of \<^verbatim>\<open>toFixed(2)\<close> on the double it is given.\<close>

lemma toFixed2_error:
  "(0 \<le> x \<longrightarrow> - (1 / 200) < toFixed2 x - x \<and> toFixed2 x - x \<le> 1 / 200) \<and>
   (x < 0 \<longrightarrow> - (1 / 200) \<le> toFixed2 x - x \<and> toFixed2 x - x < 1 / 200)"
proof (cases "x < 0")
  case True
  define n where "n = \<lfloor>(- x) * 100 + 1 / 2\<rfloor>"
  have "of_int n \<le> (- x) * 100 + 1 / 2" "(- x) * 100 + 1 / 2 < of_int n + 1"
    unfolding n_def by linarith+
  moreover have "toFixed2 x = - (of_int n / 100)"
    unfolding n_def toFixed2_def using True by simp
  ultimately show ?thesis using True by simp
next
  case False
  define n where "n = \<lfloor>x * 100 + 1 / 2\<rfloor>"
  have "of_int n \<le> x * 100 + 1 / 2" "x * 100 + 1 / 2 < of_int n + 1"
    unfolding n_def by linarith+
  moreover have "toFixed2 x = of_int n / 100"
    unfolding n_def toFixed2_def using False by simp
  ultimately show ?thesis using False by simp
qed

lemma toFixed2_close: "\<bar>toFixed2 x - x\<bar> \<le> 1 / 200"
  using toFixed2_error[of x] by (cases "x < 0") linarith+

lemma twoDecimals_add: "twoDecimals x \<Longrightarrow> twoDecimals y \<Longrightarrow> twoDecimals (x + y)"
  unfolding twoDecimals_iff
proof -
  assume "\<exists>k::int. x = of_int k / 100" "\<exists>k::int. y = of_int k / 100"
  then obtain k l :: int where "x = of_int k / 100" "y = of_int l / 100" by blast
  then have "x + y = of_int (k + l) / 100" by simp
  then show "\<exists>k::int. x + y = of_int k / 100" by blast
qed

lemma twoDecimals_minus: "twoDecimals x \<Longrightarrow> twoDecimals (- x)"
  unfolding twoDecimals_iff
proof -
  assume "\<exists>k::int. x = of_int k / 100"
  then obtain k :: int where "x = of_int k / 100" by blast
  then have "- x = of_int (- k) / 100" by simp
  then show "\<exists>k::int. - x = of_int k / 100" by blast
qed

lemma twoDecimals_diff: "twoDecimals x \<Longrightarrow> twoDecimals y \<Longrightarrow> twoDecimals (x - y)"
  using twoDecimals_add[of x "- y"] twoDecimals_minus[of y] by simp

lemma twoDecimals_0: "twoDecimals 0"
  by (simp add: twoDecimals_def)

text \<open>
  A double that is within a quarter of a hundredth of an amount of two decimals is
  rounded to that amount, so an expression whose exact value has two decimals is stored
  as that value; any other expression is stored within three quarters of a hundredth.
\<close>

lemma asDouble_close: "\<bar>asDouble env x - x\<bar> \<le> 1 / 400"
  by (simp add: asDouble_def binaryError_def)

lemma toFixed2_near:
  assumes "\<bar>y - of_int k / 100\<bar> \<le> 1 / 400"
  shows "toFixed2 y = of_int k / 100"
proof -
  have b: "of_int k - 1 / 4 \<le> y * 100" "y * 100 \<le> of_int k + 1 / 4"
    using assms by linarith+
  show ?thesis
  proof (cases "y < 0")
    case True
    have "\<lfloor>(- y) * 100 + 1 / 2\<rfloor> = - k"
    proof (rule floor_unique)
      show "of_int (- k) \<le> (- y) * 100 + 1 / 2" using b by simp
      show "(- y) * 100 + 1 / 2 < of_int (- k) + 1" using b by simp
    qed
    then show ?thesis using True by (simp add: toFixed2_def)
  next
    case False
    have "\<lfloor>y * 100 + 1 / 2\<rfloor> = k"
    proof (rule floor_unique)
      show "of_int k \<le> y * 100 + 1 / 2" using b by simp
      show "y * 100 + 1 / 2 < of_int k + 1" using b by simp
    qed
    then show ?thesis using False by (simp add: toFixed2_def)
  qed
qed

lemma fixed_twoDecimals: "twoDecimals x \<Longrightarrow> toFixed2 (asDouble env x) = x"
  using toFixed2_near asDouble_close twoDecimals_iff by metis

lemma fixed_close: "\<bar>toFixed2 (asDouble env x) - x\<bar> \<le> 1 / 200 + 1 / 400"
  using toFixed2_close[of "asDouble env x"] asDouble_close[of env x] by linarith

lemma roundedTo2_fixed: "roundedTo2 x (toFixed2 (asDouble env x))"
  using fixed_close[of env x] by (simp add: roundedTo2_def twoDecimals_toFixed2)

lemma fixed_nonneg:
  assumes "0 \<le> x"
  shows "0 \<le> toFixed2 (asDouble env x)"
proof (cases "asDouble env x < 0")
  case True
  then have "\<bar>asDouble env x - of_int 0 / 100\<bar> \<le> 1 / 400"
    using asDouble_close[of env x] assms by simp
  then have "toFixed2 (asDouble env x) = of_int 0 / 100" by (rule toFixed2_near)
  then show ?thesis by simp
next
  case False
  then show ?thesis by (simp add: toFixed2_def)
qed

subsection \<open>Rows\<close>

lemma find_map_update:
  "find (\<lambda>po. po_id po = i) xs = Some po \<Longrightarrow> po_id (f po) = i \<Longrightarrow>
   find (\<lambda>po. po_id po = i) (map (\<lambda>p. if po_id p = i then f p else p) xs) = Some (f po)"
  by (induction xs) (auto split: if_splits)

lemma findOne_id: "findOne s i = Inr po \<Longrightarrow> po_id po = i"
  by (auto simp: findOne_def find_Some_iff split: option.splits)

lemma findOne_mem: "findOne s i = Inr po \<Longrightarrow> po \<in> set (purchaseOrders s) \<and> po_id po = i"
  by (auto simp: findOne_def find_Some_iff split: option.splits)

lemma findOne_exists:
  assumes "r \<in> set (purchaseOrders s)" and "po_id r = i"
  shows "\<exists>po. findOne s i = Inr po"
proof (cases "find (\<lambda>po. po_id po = i) (purchaseOrders s)")
  case None
  then show ?thesis using assms by (auto simp: find_None_iff)
next
  case (Some po)
  then show ?thesis by (simp add: findOne_def)
qed

lemma findOne_updateRow:
  "findOne s i = Inr po \<Longrightarrow> po_id (f po) = i \<Longrightarrow> findOne (updateRow s i f) i = Inr (f po)"
  by (auto simp: findOne_def updateRow_def find_map_update split: option.splits)

lemma findOne_savePo:
  "findOne s i = Inr po \<Longrightarrow> po_id po' = i \<Longrightarrow> findOne (savePo s po') i = Inr po'"
  using findOne_updateRow[of s i po "\<lambda>_. po'"] by (simp add: savePo_def)

lemma payments_updateRow: "payments (updateRow s i f) = payments s"
  by (simp add: updateRow_def)

lemma payments_savePo: "payments (savePo s po) = payments s"
  by (simp add: savePo_def updateRow_def)

lemma find_map_replace:
  "find (\<lambda>x. k x = i) xs = Some x \<Longrightarrow> k (f x) = i \<Longrightarrow>
   find (\<lambda>x. k x = i) (map (\<lambda>y. if k y = i then f y else y) xs) = Some (f x)"
  by (induction xs) (auto split: if_splits)

lemma payment_findOne_id: "payment_findOne s i = Inr p \<Longrightarrow> payment_id p = i"
  by (auto simp: payment_findOne_def find_Some_iff split: option.splits)

lemma payment_findOne_mem:
  "payment_findOne s i = Inr p \<Longrightarrow> p \<in> set (payments s) \<and> payment_id p = i"
  by (auto simp: payment_findOne_def find_Some_iff split: option.splits)

lemma foldr_max_ge: "x \<in> set ids \<Longrightarrow> x \<le> foldr max ids (0::nat)"
  by (induction ids) auto

lemma freshId_fresh: "x \<in> set ids \<Longrightarrow> x < freshId ids"
  using foldr_max_ge[of x ids] by (simp add: freshId_def)

lemma find_append_fresh:
  assumes "\<forall>x \<in> set xs. k x \<noteq> k y"
  shows "find (\<lambda>x. k x = k y) (xs @ [y]) = Some y"
  using assms by (induction xs) auto

subsection \<open>The steps of recording and voiding\<close>

lemma updatePaymentAmounts_result:
  assumes "updatePaymentAmounts env s i a = Inr (po', s')" and "findOne s i = Inr po"
  shows "paidAmount po' = toFixed2 (asDouble env (paidAmount po + a))"
    and "paidAmount po' \<le> totalAmount po"
    and "outstandingAmount po' =
           max 0 (toFixed2 (asDouble env (totalAmount po - paidAmount po')))"
    and "status po' = (if toFixed2 (asDouble env (totalAmount po - paidAmount po')) \<le> 0 then PAID
                       else if paidAmount po' > 0 then PARTIALLY_PAID else status po)"
    and "totalAmount po' = totalAmount po" and "subtotal po' = subtotal po"
    and "taxAmount po' = taxAmount po" and "discountAmount po' = discountAmount po"
    and "po_id po' = i" and "s' = savePo s po'"
  using assms findOne_id[of s i po]
  by (auto simp: updatePaymentAmounts_def Let_def split: if_splits)

lemma payment_create_result:
  assumes po: "findOne s (p_purchaseOrderId dto) = Inr po"
    and ok: "payment_create env s dto = (Inr payment, s')"
  shows "\<exists>po'. updatePaymentAmounts env s (p_purchaseOrderId dto) (p_amountPaid dto) =
                  Inr (po', savePo s po') \<and>
           s' = (savePo s po')\<lparr>payments := payments s @ [payment]\<rparr> \<and>
           findOne s' (p_purchaseOrderId dto) = Inr po' \<and>
           payment_findOne s' (payment_id payment) = Inr payment \<and>
           purchaseOrderId payment = p_purchaseOrderId dto \<and>
           amountPaid payment = p_amountPaid dto \<and> payment_status payment = COMPLETED"
proof -
  have id: "po_id po = p_purchaseOrderId dto" using po by (rule findOne_id)
  from ok po obtain po' s1 where
    upd: "updatePaymentAmounts env s (po_id po) (p_amountPaid dto) = Inr (po', s1)"
    and s': "s' = s1\<lparr>payments := payments s1 @ [payment]\<rparr>"
    and pay: "payment_id payment = freshId (map payment_id (payments s))"
      "purchaseOrderId payment = po_id po" "amountPaid payment = p_amountPaid dto"
      "payment_status payment = COMPLETED"
    by (auto simp: payment_create_def Let_def split: if_splits sum.splits)
  from po id have po2: "findOne s (po_id po) = Inr po" by simp
  note r = updatePaymentAmounts_result[OF upd po2]
  have f1: "findOne s1 (po_id po) = Inr po'"
    using r(9,10) po2 findOne_savePo[of s "po_id po" po po'] by simp
  then have f: "findOne s' (p_purchaseOrderId dto) = Inr po'"
    using id by (simp add: s' findOne_def)
  have ps: "payments s1 = payments s" using r(10) by (simp add: payments_savePo)
  have "\<forall>x \<in> set (payments s). payment_id x \<noteq> payment_id payment"
    using freshId_fresh[of _ "map payment_id (payments s)"] pay(1) by force
  from find_append_fresh[of "payments s" payment_id payment, OF this]
  have pf: "payment_findOne s' (payment_id payment) = Inr payment"
    by (simp add: payment_findOne_def s' ps)
  show ?thesis using upd r(10) s' f pf pay id ps by auto
qed

lemma payment_create_fresh:
  assumes "payment_create env s dto = (Inr payment, s')"
  shows "payment_id payment \<notin> payment_id ` set (payments s)"
proof -
  from assms have "payment_id payment = freshId (map payment_id (payments s))"
    by (auto simp: payment_create_def Let_def split: sum.splits if_splits)
  then show ?thesis using freshId_fresh[of _ "map payment_id (payments s)"] by force
qed

lemma payment_create_found:
  "payment_create env s dto = (Inr payment, s') \<Longrightarrow>
   \<exists>po. findOne s (p_purchaseOrderId dto) = Inr po"
  by (auto simp: payment_create_def split: sum.splits)

lemma payment_create_refused:
  "\<not> commitFails env \<Longrightarrow> payment_create env s dto = (Inl e, s') \<Longrightarrow> s' = s"
  by (auto simp: payment_create_def Let_def split: sum.splits if_splits)

lemma recordPayment_result:
  assumes po: "findOne s (p_purchaseOrderId dto) = Inr po"
    and st: "status po \<in> {APPROVED, PARTIALLY_PAID, OVERDUE}"
    and pos: "0 < p_amountPaid dto"
    and le: "p_amountPaid dto \<le> outstandingAmount po"
    and dec: "twoDecimals (p_amountPaid dto)" "twoDecimals (paidAmount po)"
             "twoDecimals (totalAmount po)"
    and paid: "0 \<le> paidAmount po"
    and ok: "payment_create env s dto = (Inr payment, s')"
  shows "\<exists>po'. findOne s' (p_purchaseOrderId dto) = Inr po' \<and>
           paidAmount po' = paidAmount po + p_amountPaid dto \<and>
           outstandingAmount po' = max 0 (totalAmount po - paidAmount po') \<and>
           status po' = (if outstandingAmount po' \<le> 0 then PAID else PARTIALLY_PAID)"
proof -
  have id: "po_id po = p_purchaseOrderId dto" using po by (rule findOne_id)
  from ok po st le obtain po' s1 where
    upd: "updatePaymentAmounts env s (po_id po) (p_amountPaid dto) = Inr (po', s1)"
    and s': "s' = s1\<lparr>payments := payments s1 @ [payment]\<rparr>"
    by (auto simp: payment_create_def Let_def split: if_splits sum.splits)
  from po id have po2: "findOne s (po_id po) = Inr po" by simp
  note r = updatePaymentAmounts_result[OF upd po2]
  have np: "paidAmount po' = paidAmount po + p_amountPaid dto"
    using r(1) dec by (simp add: fixed_twoDecimals twoDecimals_add)
  have no: "toFixed2 (asDouble env (totalAmount po - paidAmount po')) =
            totalAmount po - paidAmount po'"
    using dec np by (simp add: fixed_twoDecimals twoDecimals_add twoDecimals_diff)
  have "findOne s1 (po_id po) = Inr po'"
    using r(9,10) po2 findOne_savePo[of s "po_id po" po po'] by simp
  then have f: "findOne s' (p_purchaseOrderId dto) = Inr po'"
    using id by (simp add: s' findOne_def)
  have "paidAmount po' > 0" using np pos paid by simp
  then show ?thesis using f np no r(3,4) by (auto simp: max_def)
qed

lemma reversePaymentAmount_result:
  assumes "findOne s i = Inr po"
  shows "\<exists>po'. reversePaymentAmount env s i a = Inr (po', savePo s po') \<and>
     findOne (savePo s po') i = Inr po' \<and>
     paidAmount po' = max 0 (toFixed2 (asDouble env (paidAmount po - a))) \<and>
     outstandingAmount po' =
       toFixed2 (asDouble env (totalAmount po - toFixed2 (asDouble env (paidAmount po - a)))) \<and>
     status po' = (if toFixed2 (asDouble env (paidAmount po - a)) \<le> 0 then APPROVED
                   else PARTIALLY_PAID) \<and>
     totalAmount po' = totalAmount po \<and> subtotal po' = subtotal po \<and>
     taxAmount po' = taxAmount po \<and> discountAmount po' = discountAmount po \<and>
     dueDate po' = dueDate po"
  using assms findOne_id[OF assms]
  by (simp add: reversePaymentAmount_def Let_def loaded_def findOne_savePo[of s i po])

text \<open>
  Voiding a COMPLETED payment whose amount is part of the paid amount of its order, with
  amounts of two decimals and a commit that goes through: the payment is VOIDED for good,
  the paid amount goes down by the amount of the payment, and the outstanding amount is
  the total less what is still paid. The status is APPROVED when nothing is paid any more
  and PARTIALLY_PAID otherwise; the due date plays no part.
\<close>

lemma payment_void_result:
  assumes p: "payment_findOne s paymentId = Inr p"
    and c: "payment_status p = COMPLETED"
    and po: "findOne s (purchaseOrderId p) = Inr po"
    and dec: "twoDecimals (amountPaid p)" "twoDecimals (paidAmount po)"
             "twoDecimals (totalAmount po)"
    and le: "amountPaid p \<le> paidAmount po"
    and commit: "\<not> commitFails env"
  shows "\<exists>p' po' s'.
      payment_void env s paymentId reason = (Inr p', s') \<and>
      payment_findOne s' paymentId = Inr p' \<and>
      payment_status p' = VOIDED \<and>
      payment_void env2 s' paymentId reason2 = (Inl PaymentAlreadyVoided, s') \<and>
      findOne s' (purchaseOrderId p) = Inr po' \<and>
      paidAmount po' = paidAmount po - amountPaid p \<and>
      outstandingAmount po' = totalAmount po - paidAmount po' \<and>
      totalAmount po' = totalAmount po \<and>
      status po' = (if paidAmount po' \<le> 0 then APPROVED else PARTIALLY_PAID)"
proof -
  obtain po' where
    r: "reversePaymentAmount env s (purchaseOrderId p) (amountPaid p) = Inr (po', savePo s po')"
    and f: "findOne (savePo s po') (purchaseOrderId p) = Inr po'"
    and pa: "paidAmount po' = max 0 (toFixed2 (asDouble env (paidAmount po - amountPaid p)))"
    and ou: "outstandingAmount po' =
               toFixed2 (asDouble env
                 (totalAmount po - toFixed2 (asDouble env (paidAmount po - amountPaid p))))"
    and st: "status po' = (if toFixed2 (asDouble env (paidAmount po - amountPaid p)) \<le> 0
                   then APPROVED else PARTIALLY_PAID)"
    and to: "totalAmount po' = totalAmount po"
    using reversePaymentAmount_result[OF po, of env "amountPaid p"] by blast
  define p' where
    "p' = p\<lparr>payment_status := VOIDED, voidedAt := Some (now env), voidReason := Some reason\<rparr>"
  define s' where
    "s' = (savePo s po')\<lparr>payments :=
        map (\<lambda>q. if payment_id q = paymentId then p' else q) (payments (savePo s po'))\<rparr>"
  have pid: "payment_id p = paymentId" using p by (rule payment_findOne_id)
  have v: "payment_void env s paymentId reason = (Inr p', s')"
    using p c r commit by (simp add: payment_void_def p'_def s'_def Let_def)
  have fp: "find (\<lambda>q. payment_id q = paymentId) (payments s) = Some p"
    using p by (auto simp: payment_findOne_def split: option.splits)
  have "payment_id p' = paymentId" using pid by (simp add: p'_def)
  from find_map_replace[OF fp, of "\<lambda>_. p'", OF this]
  have pf: "payment_findOne s' paymentId = Inr p'"
    by (simp add: payment_findOne_def s'_def payments_savePo)
  have vs: "payment_status p' = VOIDED" by (simp add: p'_def)
  have again: "payment_void env2 s' paymentId reason2 = (Inl PaymentAlreadyVoided, s')"
    using pf vs by (simp add: payment_void_def)
  have f': "findOne s' (purchaseOrderId p) = Inr po'"
    using f by (simp add: findOne_def s'_def)
  have d1: "toFixed2 (asDouble env (paidAmount po - amountPaid p)) =
            paidAmount po - amountPaid p"
    using dec by (simp add: fixed_twoDecimals twoDecimals_diff)
  have d2: "toFixed2 (asDouble env (totalAmount po - (paidAmount po - amountPaid p))) =
            totalAmount po - (paidAmount po - amountPaid p)"
    using dec by (simp add: fixed_twoDecimals twoDecimals_diff)
  have pa': "paidAmount po' = paidAmount po - amountPaid p" using pa d1 le by simp
  have ou': "outstandingAmount po' = totalAmount po - paidAmount po'"
    using ou d1 d2 pa' by simp
  have st': "status po' = (if paidAmount po' \<le> 0 then APPROVED else PARTIALLY_PAID)"
    using st d1 pa' by auto
  show ?thesis using v pf vs again f' pa' ou' to st' by blast
qed

lemma payment_void_refused:
  "\<not> commitFails env \<Longrightarrow> payment_void env s pid reason = (Inl e, s') \<Longrightarrow> s' = s"
  by (auto simp: payment_void_def Let_def split: sum.splits if_splits)

text \<open>
  Recording a payment and then voiding it: the paid amount is what it was, and the
  outstanding amount is within 0.01 of what it was when the balance held before.
\<close>

lemma record_then_void_restores:
  assumes po: "findOne s (p_purchaseOrderId dto) = Inr po"
    and dec: "twoDecimals (p_amountPaid dto)" "twoDecimals (paidAmount po)"
             "twoDecimals (totalAmount po)"
    and nonneg: "0 \<le> paidAmount po"
    and ok: "payment_create env s dto = (Inr payment, s1)"
    and commit: "\<not> commitFails env2"
  shows "\<exists>p' po' s2.
      payment_void env2 s1 (payment_id payment) reason = (Inr p', s2) \<and>
      payment_status p' = VOIDED \<and>
      findOne s2 (p_purchaseOrderId dto) = Inr po' \<and>
      paidAmount po' = paidAmount po \<and>
      outstandingAmount po' = totalAmount po - paidAmount po \<and>
      (balanceInvariant po \<longrightarrow> \<bar>outstandingAmount po' - outstandingAmount po\<bar> \<le> 1 / 100)"
proof -
  from payment_create_result[OF po ok] obtain po1 where
    upd: "updatePaymentAmounts env s (p_purchaseOrderId dto) (p_amountPaid dto) =
           Inr (po1, savePo s po1)"
    and f1: "findOne s1 (p_purchaseOrderId dto) = Inr po1"
    and pf: "payment_findOne s1 (payment_id payment) = Inr payment"
    and pay: "purchaseOrderId payment = p_purchaseOrderId dto"
      "amountPaid payment = p_amountPaid dto" "payment_status payment = COMPLETED"
    by blast
  note r = updatePaymentAmounts_result[OF upd po]
  have p1: "paidAmount po1 = paidAmount po + p_amountPaid dto"
    using r(1) dec by (simp add: fixed_twoDecimals twoDecimals_add)
  have d1: "twoDecimals (amountPaid payment)" "twoDecimals (paidAmount po1)"
    "twoDecimals (totalAmount po1)"
    using dec p1 r(5) pay by (simp_all add: twoDecimals_add)
  have le: "amountPaid payment \<le> paidAmount po1" using p1 pay nonneg by simp
  have f1': "findOne s1 (purchaseOrderId payment) = Inr po1" using f1 pay by simp
  from payment_void_result[OF pf pay(3) f1' d1 le commit, of reason]
  obtain p' po' s2 where v: "payment_void env2 s1 (payment_id payment) reason = (Inr p', s2)"
    "payment_status p' = VOIDED" "findOne s2 (purchaseOrderId payment) = Inr po'"
    "paidAmount po' = paidAmount po1 - amountPaid payment"
    "outstandingAmount po' = totalAmount po1 - paidAmount po'" by blast
  have a: "paidAmount po' = paidAmount po" using v(4) p1 pay by simp
  have b: "outstandingAmount po' = totalAmount po - paidAmount po" using v(5) a r(5) by simp
  have "balanceInvariant po \<longrightarrow> \<bar>outstandingAmount po' - outstandingAmount po\<bar> \<le> 1 / 100"
    unfolding balanceInvariant_def b by (intro impI) linarith
  then show ?thesis using v a b pay by auto
qed

subsection \<open>The steps of an item mutation\<close>

lemma sumItems_sum:
  "sumItems xs (a, b, c) =
     (a + sum_list (map itemSubtotal xs), b + sum_list (map itemTax xs),
      c + sum_list (map itemDiscount xs))"
  by (induction xs arbitrary: a b c) (simp_all add: add.assoc)

lemma recompute_after:
  assumes "findOne s1 i = Inr po1"
  shows "\<exists>po' s'. thenFindOne (recalculateTotals env s1 i) i = Inr (po', s') \<and>
           findOne s' i = Inr po' \<and> items po' = items po1 \<and>
           paidAmount po' = paidAmount po1 \<and> status po' = status po1 \<and>
           recomputed env po' \<and> payments s' = payments s1 \<and> vendors s' = vendors s1"
proof -
  define g where "g = (\<lambda>po::PurchaseOrder.
     po\<lparr>subtotal := toFixed2 (asDouble env (sum_list (map itemSubtotal (items po1)))),
        taxAmount := toFixed2 (asDouble env (sum_list (map itemTax (items po1)))),
        discountAmount := toFixed2 (asDouble env (sum_list (map itemDiscount (items po1)))),
        totalAmount := toFixed2 (asDouble env (sum_list (map itemSubtotal (items po1)) -
           sum_list (map itemDiscount (items po1)) + sum_list (map itemTax (items po1)))),
        outstandingAmount := toFixed2 (asDouble env (sum_list (map itemSubtotal (items po1)) -
           sum_list (map itemDiscount (items po1)) + sum_list (map itemTax (items po1)) -
           paidAmount po1))\<rparr>)"
  have r: "recalculateTotals env s1 i = Inr (updateRow s1 i g)"
    using assms by (simp add: recalculateTotals_def sumItems_sum g_def Let_def)
  have "po_id (g po1) = i" using findOne_id[OF assms] by (simp add: g_def)
  then have f: "findOne (updateRow s1 i g) i = Inr (g po1)"
    using assms by (rule findOne_updateRow[rotated])
  have "thenFindOne (recalculateTotals env s1 i) i = Inr (g po1, updateRow s1 i g)"
    by (simp add: thenFindOne_def r f)
  moreover have "recomputed env (g po1)" by (simp add: recomputed_def g_def)
  moreover have "items (g po1) = items po1" "paidAmount (g po1) = paidAmount po1"
    "status (g po1) = status po1" by (simp_all add: g_def)
  moreover have "payments (updateRow s1 i g) = payments s1" "vendors (updateRow s1 i g) = vendors s1"
    by (simp_all add: updateRow_def)
  ultimately show ?thesis using f by blast
qed

lemma findOne_items_update:
  assumes "findOne s i = Inr po"
  shows "findOne (updateRow s i (\<lambda>p. p\<lparr>items := h (items p)\<rparr>)) i = Inr (po\<lparr>items := h (items po)\<rparr>)"
  using findOne_updateRow[OF assms, of "\<lambda>p. p\<lparr>items := h (items p)\<rparr>"] findOne_id[OF assms]
  by simp

lemma mutateItems_result:
  assumes po: "findOne s i = Inr po" and ap: "applicable po m"
  shows "\<exists>po' s'. mutateItems env s i m = Inr (po', s') \<and> findOne s' i = Inr po' \<and>
           items po' = itemsAfter env s po m \<and> paidAmount po' = paidAmount po \<and>
           status po' = status po \<and> recomputed env po' \<and>
           payments s' = payments s \<and> vendors s' = vendors s"
proof (cases m)
  case (AddItem d)
  define h where "h = (\<lambda>xs. xs @ [toEntity env (freshId (itemIds s)) d])"
  define s1 where "s1 = updateRow s i (\<lambda>p. p\<lparr>items := h (items p)\<rparr>)"
  have f1: "findOne s1 i = Inr (po\<lparr>items := h (items po)\<rparr>)"
    unfolding s1_def using po by (rule findOne_items_update)
  have m: "mutateItems env s i m = thenFindOne (recalculateTotals env s1 i) i"
    using po ap AddItem by (auto simp: mutateItems_def addItem_def applicable_def s1_def h_def Let_def)
  have ps: "payments s1 = payments s" "vendors s1 = vendors s" by (simp_all add: s1_def updateRow_def)
  from recompute_after[OF f1] m ps show ?thesis
    by (auto simp: itemsAfter_def AddItem h_def)
next
  case (UpdateItem k d)
  from ap UpdateItem obtain item where it: "find (\<lambda>i. item_id i = k) (items po) = Some item"
    by (auto simp: applicable_def)
  define h where "h = map (\<lambda>i. if item_id i = k then assignItemDto env item d else i)"
  define s1 where "s1 = updateRow s i (\<lambda>p. p\<lparr>items := h (items p)\<rparr>)"
  have f1: "findOne s1 i = Inr (po\<lparr>items := h (items po)\<rparr>)"
    unfolding s1_def using po by (rule findOne_items_update)
  have m: "mutateItems env s i m = thenFindOne (recalculateTotals env s1 i) i"
    using po ap UpdateItem it
    by (auto simp: mutateItems_def updateItem_def applicable_def s1_def h_def Let_def)
  have ps: "payments s1 = payments s" "vendors s1 = vendors s" by (simp_all add: s1_def updateRow_def)
  from recompute_after[OF f1] m ps show ?thesis
    by (auto simp: itemsAfter_def UpdateItem h_def it)
next
  case (RemoveItem k)
  from ap RemoveItem obtain item where it: "find (\<lambda>i. item_id i = k) (items po) = Some item"
    and len: "1 < length (items po)"
    by (auto simp: applicable_def)
  define h where "h = filter (\<lambda>i::PurchaseOrderItem. item_id i \<noteq> k)"
  define s1 where "s1 = updateRow s i (\<lambda>p. p\<lparr>items := h (items p)\<rparr>)"
  have f1: "findOne s1 i = Inr (po\<lparr>items := h (items po)\<rparr>)"
    unfolding s1_def using po by (rule findOne_items_update)
  have m: "mutateItems env s i m = thenFindOne (recalculateTotals env s1 i) i"
    using po ap RemoveItem it len
    by (auto simp: mutateItems_def removeItem_def applicable_def s1_def h_def Let_def)
  have ps: "payments s1 = payments s" "vendors s1 = vendors s" by (simp_all add: s1_def updateRow_def)
  from recompute_after[OF f1] m ps show ?thesis
    by (auto simp: itemsAfter_def RemoveItem h_def)
qed

lemma mutateItems_success:
  assumes "mutateItems env s i m = Inr r"
  shows "\<exists>po. findOne s i = Inr po \<and> applicable po m"
proof (cases "findOne s i")
  case (Inl e)
  then show ?thesis using assms
    by (cases m) (simp_all add: mutateItems_def addItem_def updateItem_def removeItem_def)
next
  case (Inr po)
  then show ?thesis using assms
    by (cases m)
       (auto simp: mutateItems_def addItem_def updateItem_def removeItem_def applicable_def
             split: if_splits option.splits)
qed

lemma recalculateTotals_store:
  assumes "recalculateTotals env s1 i = Inr s'"
  shows "\<exists>g. s' = updateRow s1 i g \<and>
           (\<forall>r. po_id (g r) = po_id r \<and> paidAmount (g r) = paidAmount r \<and>
                twoDecimals (totalAmount (g r)))"
proof -
  from assms obtain po where po: "findOne s1 i = Inr po"
    by (auto simp: recalculateTotals_def split: sum.splits)
  obtain a b c where abc: "sumItems (items po) (0, 0, 0) = (a, b, c)"
    using prod_cases3 by blast
  define g where "g = (\<lambda>r::PurchaseOrder.
      r\<lparr>subtotal := toFixed2 (asDouble env a), taxAmount := toFixed2 (asDouble env b),
        discountAmount := toFixed2 (asDouble env c),
        totalAmount := toFixed2 (asDouble env (a - c + b)),
        outstandingAmount := toFixed2 (asDouble env (a - c + b - paidAmount po))\<rparr>)"
  have "s' = updateRow s1 i g"
    using assms po abc by (simp add: recalculateTotals_def Let_def g_def)
  moreover have "\<forall>r. po_id (g r) = po_id r \<and> paidAmount (g r) = paidAmount r \<and>
                twoDecimals (totalAmount (g r))"
    by (simp add: g_def twoDecimals_toFixed2)
  ultimately show ?thesis by blast
qed

lemma thenFindOne_store: "thenFindOne r i = Inr (po, s') \<Longrightarrow> r = Inr s'"
  by (auto simp: thenFindOne_def split: sum.splits)

lemma mutateItems_store:
  assumes "mutateItems env s i m = Inr (po', s')"
  shows "\<exists>h. recalculateTotals env (updateRow s i (\<lambda>p. p\<lparr>items := h (items p)\<rparr>)) i = Inr s'"
proof (cases m)
  case (AddItem d)
  with assms have
    "thenFindOne (recalculateTotals env (updateRow s i
        (\<lambda>p. p\<lparr>items := (\<lambda>xs. xs @ [toEntity env (freshId (itemIds s)) d]) (items p)\<rparr>)) i) i = Inr (po', s')"
    by (auto simp: mutateItems_def addItem_def Let_def split: sum.splits if_splits)
  from thenFindOne_store[OF this] show ?thesis
    by (intro exI[of _ "\<lambda>xs. xs @ [toEntity env (freshId (itemIds s)) d]"])
next
  case (UpdateItem k d)
  with assms obtain item where
    "thenFindOne (recalculateTotals env (updateRow s i
        (\<lambda>p. p\<lparr>items := map (\<lambda>x. if item_id x = k then assignItemDto env item d else x) (items p)\<rparr>)) i) i
      = Inr (po', s')"
    by (auto simp: mutateItems_def updateItem_def Let_def split: sum.splits if_splits option.splits)
  from thenFindOne_store[OF this] show ?thesis
    by (intro exI[of _ "map (\<lambda>x. if item_id x = k then assignItemDto env item d else x)"])
next
  case (RemoveItem k)
  with assms have
    "thenFindOne (recalculateTotals env (updateRow s i
        (\<lambda>p. p\<lparr>items := filter (\<lambda>x. item_id x \<noteq> k) (items p)\<rparr>)) i) i = Inr (po', s')"
    by (auto simp: mutateItems_def removeItem_def Let_def split: sum.splits if_splits option.splits)
  from thenFindOne_store[OF this] show ?thesis
    by (intro exI[of _ "filter (\<lambda>x. item_id x \<noteq> k)"])
qed

subsection \<open>Consistency of the ledger\<close>

lemma completedFor_append:
  "completedFor i (ps @ [p]) =
     completedFor i ps +
     (if purchaseOrderId p = i \<and> payment_status p = COMPLETED then amountPaid p else 0)"
  by (simp add: completedFor_def)

lemma completedFor_twoDecimals:
  "\<forall>p \<in> set ps. twoDecimals (amountPaid p) \<Longrightarrow> twoDecimals (completedFor i ps)"
  by (induction ps) (auto simp: completedFor_def twoDecimals_0 twoDecimals_add)

lemma completedFor_nonneg:
  "\<forall>p \<in> set ps. 0 < amountPaid p \<Longrightarrow> 0 \<le> completedFor i ps"
  by (induction ps) (auto simp: completedFor_def intro: add_nonneg_nonneg less_imp_le)

lemma completedFor_member:
  assumes "\<forall>q \<in> set ps. 0 < amountPaid q" and "p \<in> set ps" and "payment_status p = COMPLETED"
  shows "amountPaid p \<le> completedFor (purchaseOrderId p) ps"
  using assms
proof (induction ps)
  case Nil
  then show ?case by simp
next
  case (Cons q ps)
  have t: "0 \<le> completedFor (purchaseOrderId p) ps"
    using Cons.prems(1) by (intro completedFor_nonneg) simp
  show ?case
  proof (cases "p = q")
    case True
    then show ?thesis using Cons.prems t by (simp add: completedFor_def)
  next
    case False
    then have "amountPaid p \<le> completedFor (purchaseOrderId p) ps"
      using Cons by simp
    moreover have "0 < amountPaid q" using Cons.prems(1) by simp
    ultimately show ?thesis by (simp add: completedFor_def)
  qed
qed

lemma completedFor_void:
  assumes "distinct (map payment_id ps)"
    and "find (\<lambda>q. payment_id q = pid) ps = Some p"
    and "payment_status p = COMPLETED"
    and "purchaseOrderId p' = purchaseOrderId p" and "payment_status p' = VOIDED"
  shows "completedFor i (map (\<lambda>q. if payment_id q = pid then p' else q) ps) =
         completedFor i ps - (if purchaseOrderId p = i then amountPaid p else 0)"
  using assms(1,2)
proof (induction ps)
  case Nil
  then show ?case by simp
next
  case (Cons q ps)
  show ?case
  proof (cases "payment_id q = pid")
    case True
    then have qp: "q = p" using Cons.prems(2) by simp
    have "\<forall>x \<in> set ps. payment_id x \<noteq> pid"
      using Cons.prems(1) True by (auto simp: image_iff)
    then have "map (\<lambda>q. if payment_id q = pid then p' else q) ps = ps"
      by (intro map_idI) simp
    then show ?thesis using True qp assms(3,4,5) by (simp add: completedFor_def)
  next
    case False
    then have "find (\<lambda>q. payment_id q = pid) ps = Some p" using Cons.prems(2) by simp
    moreover have "distinct (map payment_id ps)" using Cons.prems(1) by simp
    ultimately have "completedFor i (map (\<lambda>q. if payment_id q = pid then p' else q) ps) =
         completedFor i ps - (if purchaseOrderId p = i then amountPaid p else 0)"
      by (rule Cons.IH[rotated])
    then show ?thesis using False by (simp add: completedFor_def)
  qed
qed

lemma completedFor_none:
  "\<forall>p \<in> set ps. purchaseOrderId p \<noteq> i \<Longrightarrow> completedFor i ps = 0"
  by (induction ps) (auto simp: completedFor_def)

lemma ledger_map:
  assumes K: "ledgerConsistent s"
    and f: "\<forall>r \<in> set (purchaseOrders s).
              po_id (f r) = po_id r \<and>
              paidAmount (f r) = completedFor (po_id r) (payments s) \<and>
              twoDecimals (totalAmount (f r))"
  shows "ledgerConsistent (s\<lparr>purchaseOrders := map f (purchaseOrders s)\<rparr>)"
  unfolding ledgerConsistent_def
proof (intro conjI ballI)
  show "distinct (map payment_id (payments (s\<lparr>purchaseOrders := map f (purchaseOrders s)\<rparr>)))"
    using K by (simp add: ledgerConsistent_def)
next
  fix p assume "p \<in> set (payments (s\<lparr>purchaseOrders := map f (purchaseOrders s)\<rparr>))"
  then have p: "p \<in> set (payments s)" by simp
  then show "0 < amountPaid p" "twoDecimals (amountPaid p)"
    using K by (simp_all add: ledgerConsistent_def)
  from p K obtain r where "r \<in> set (purchaseOrders s)" "po_id r = purchaseOrderId p"
    by (auto simp: ledgerConsistent_def)
  then show "\<exists>po \<in> set (purchaseOrders (s\<lparr>purchaseOrders := map f (purchaseOrders s)\<rparr>)).
               po_id po = purchaseOrderId p"
    using f by fastforce
next
  fix po assume "po \<in> set (purchaseOrders (s\<lparr>purchaseOrders := map f (purchaseOrders s)\<rparr>))"
  then obtain r where r: "r \<in> set (purchaseOrders s)" "po = f r" by auto
  then show "twoDecimals (totalAmount po)"
    "paidAmount po = completedFor (po_id po) (payments (s\<lparr>purchaseOrders := map f (purchaseOrders s)\<rparr>))"
    using f by simp_all
qed

lemma ledger_updateRow:
  assumes K: "ledgerConsistent s"
    and f: "\<forall>r \<in> set (purchaseOrders s). po_id r = i \<longrightarrow>
              po_id (f r) = i \<and> paidAmount (f r) = paidAmount r \<and>
              twoDecimals (totalAmount (f r))"
  shows "ledgerConsistent (updateRow s i f)"
  unfolding updateRow_def
  using K f by (intro ledger_map) (auto simp: ledgerConsistent_def)

lemma ledger_savePo:
  assumes K: "ledgerConsistent s" and po: "findOne s i = Inr po"
    and po': "po_id po' = i" "paidAmount po' = paidAmount po" "totalAmount po' = totalAmount po"
  shows "ledgerConsistent (savePo s po')"
proof -
  from findOne_mem[OF po] K have "paidAmount po = completedFor i (payments s)"
    "twoDecimals (totalAmount po)"
    by (auto simp: ledgerConsistent_def)
  then show ?thesis unfolding savePo_def po'(1) using K po'
    by (intro ledger_updateRow) (auto simp: ledgerConsistent_def)
qed

lemma ledger_mutateItems:
  assumes K: "ledgerConsistent s" and m: "mutateItems env s i m = Inr (po', s')"
  shows "ledgerConsistent s'"
proof -
  from mutateItems_store[OF m] obtain h where
    r: "recalculateTotals env (updateRow s i (\<lambda>p. p\<lparr>items := h (items p)\<rparr>)) i = Inr s'"
    by blast
  have K1: "ledgerConsistent (updateRow s i (\<lambda>p. p\<lparr>items := h (items p)\<rparr>))"
    using K by (intro ledger_updateRow) (auto simp: ledgerConsistent_def)
  from recalculateTotals_store[OF r] obtain g where
    "s' = updateRow (updateRow s i (\<lambda>p. p\<lparr>items := h (items p)\<rparr>)) i g"
    "\<forall>r. po_id (g r) = po_id r \<and> paidAmount (g r) = paidAmount r \<and>
                twoDecimals (totalAmount (g r))" by blast
  then show ?thesis using K1 by (auto intro!: ledger_updateRow)
qed

lemma ledger_po_create:
  assumes K: "ledgerConsistent s" and c: "po_create env s dto = Inr (po, s')"
  shows "ledgerConsistent s'"
proof -
  from c have s': "s' = s\<lparr>purchaseOrders := purchaseOrders s @ [po]\<rparr>"
    and id: "po_id po = freshId (map po_id (purchaseOrders s))"
    and paid: "paidAmount po = 0"
    and total: "twoDecimals (totalAmount po)"
    by (auto simp: po_create_def Let_def twoDecimals_toFixed2
             split: option.splits if_splits prod.splits)
  have "\<forall>p \<in> set (payments s). purchaseOrderId p \<noteq> po_id po"
  proof
    fix p assume "p \<in> set (payments s)"
    then obtain r where "r \<in> set (purchaseOrders s)" "po_id r = purchaseOrderId p"
      using K by (auto simp: ledgerConsistent_def)
    then have "purchaseOrderId p < freshId (map po_id (purchaseOrders s))"
      using freshId_fresh[of "po_id r" "map po_id (purchaseOrders s)"] by force
    then show "purchaseOrderId p \<noteq> po_id po" using id by simp
  qed
  then have "completedFor (po_id po) (payments s) = 0" by (rule completedFor_none)
  then show ?thesis using K paid total unfolding s' ledgerConsistent_def by auto
qed

lemma ledger_po_update:
  assumes K: "ledgerConsistent s" and u: "po_update s i dto = Inr (po', s')"
  shows "ledgerConsistent s'"
proof -
  from u obtain po where po: "findOne s i = Inr po" and e: "po' = assignDto po dto"
    and s': "s' = savePo s po'"
    by (auto simp: po_update_def Let_def split: sum.splits option.splits if_splits)
  have "po_id po' = i" "paidAmount po' = paidAmount po" "totalAmount po' = totalAmount po"
    using findOne_id[OF po] by (simp_all add: e assignDto_def)
  then show ?thesis unfolding s' using K po by (intro ledger_savePo)
qed

lemma ledger_po_cancel:
  assumes K: "ledgerConsistent s" and u: "po_cancel s i = Inr (po', s')"
  shows "ledgerConsistent s'"
proof -
  from u obtain po where po: "findOne s i = Inr po" and e: "po' = po\<lparr>status := CANCELLED\<rparr>"
    and s': "s' = savePo s po'"
    by (auto simp: po_cancel_def Let_def split: sum.splits if_splits)
  have "po_id po' = i" "paidAmount po' = paidAmount po" "totalAmount po' = totalAmount po"
    using findOne_id[OF po] by (simp_all add: e)
  then show ?thesis unfolding s' using K po by (intro ledger_savePo)
qed

lemma ledger_markOverdue:
  assumes K: "ledgerConsistent s"
  shows "ledgerConsistent (snd (markOverduePurchaseOrders today s))"
  unfolding markOverduePurchaseOrders_def snd_conv
  using K by (intro ledger_map) (auto simp: ledgerConsistent_def)

lemma ledger_payment_create:
  assumes K: "ledgerConsistent s"
    and valid: "0 < p_amountPaid dto" "twoDecimals (p_amountPaid dto)"
    and ok: "payment_create env s dto = (Inr payment, s')"
  shows "ledgerConsistent s'"
proof -
  define i where "i = p_purchaseOrderId dto"
  define A where "A = p_amountPaid dto"
  from payment_create_found[OF ok] obtain po where po: "findOne s i = Inr po"
    unfolding i_def by blast
  from payment_create_result[OF po[unfolded i_def] ok] obtain po' where
    upd: "updatePaymentAmounts env s i A = Inr (po', savePo s po')"
    and s': "s' = (savePo s po')\<lparr>payments := payments s @ [payment]\<rparr>"
    and pay: "purchaseOrderId payment = i" "amountPaid payment = A"
             "payment_status payment = COMPLETED"
    unfolding i_def A_def by blast
  note r = updatePaymentAmounts_result[OF upd po]
  note fresh = payment_create_fresh[OF ok]
  have Ka: "distinct (map payment_id (payments s))"
    and Kb: "\<forall>p \<in> set (payments s). 0 < amountPaid p \<and> twoDecimals (amountPaid p) \<and>
               (\<exists>po \<in> set (purchaseOrders s). po_id po = purchaseOrderId p)"
    and Kc: "\<forall>po \<in> set (purchaseOrders s). twoDecimals (totalAmount po) \<and>
               paidAmount po = completedFor (po_id po) (payments s)"
    using K by (simp_all add: ledgerConsistent_def)
  have pom: "po \<in> set (purchaseOrders s)" "po_id po = i" using findOne_mem[OF po] by simp_all
  define f where "f = (\<lambda>r. if po_id r = i then po' else r)"
  have pos': "purchaseOrders s' = map f (purchaseOrders s)"
    by (simp add: s' savePo_def updateRow_def f_def r(9))
  have pays': "payments s' = payments s @ [payment]" by (simp add: s')
  have fid: "po_id (f x) = po_id x" for x by (simp add: f_def r(9))
  have paid_po: "paidAmount po = completedFor i (payments s)" using Kc pom by auto
  have "twoDecimals (paidAmount po)"
    unfolding paid_po using Kb by (intro completedFor_twoDecimals) simp
  then have paid': "paidAmount po' = completedFor i (payments s) + A"
    using r(1) valid(2) paid_po by (simp add: fixed_twoDecimals twoDecimals_add A_def)
  show ?thesis unfolding ledgerConsistent_def pos' pays'
  proof (intro conjI ballI)
    show "distinct (map payment_id (payments s @ [payment]))" using Ka fresh by simp
  next
    fix p assume p: "p \<in> set (payments s @ [payment])"
    show "0 < amountPaid p" using p Kb valid pay by (auto simp: A_def)
    show "twoDecimals (amountPaid p)" using p Kb valid pay by (auto simp: A_def)
    have "\<exists>x \<in> set (purchaseOrders s). po_id x = purchaseOrderId p"
      using p Kb pom pay by auto
    then show "\<exists>po \<in> set (map f (purchaseOrders s)). po_id po = purchaseOrderId p"
      using fid by fastforce
  next
    fix x assume "x \<in> set (map f (purchaseOrders s))"
    then obtain y where y: "y \<in> set (purchaseOrders s)" "x = f y" by auto
    show "twoDecimals (totalAmount x)"
      using y Kc pom r(5) by (auto simp: f_def)
    show "paidAmount x = completedFor (po_id x) (payments s @ [payment])"
    proof (cases "po_id y = i")
      case True
      then show ?thesis using y paid' pay r(9) by (simp add: f_def completedFor_append)
    next
      case False
      then show ?thesis using y Kc pay by (simp add: f_def completedFor_append)
    qed
  qed
qed

lemma ledger_payment_void:
  assumes K: "ledgerConsistent s"
    and ok: "payment_void env s pid reason = (Inr p', s')"
  shows "ledgerConsistent s'"
proof -
  from ok obtain p where p: "payment_findOne s pid = Inr p"
    by (auto simp: payment_void_def split: sum.splits)
  from ok p have c: "payment_status p = COMPLETED"
    by (cases "payment_status p") (auto simp: payment_void_def)
  define i where "i = purchaseOrderId p"
  define A where "A = amountPaid p"
  from ok p c obtain po where po: "findOne s i = Inr po"
    by (cases "findOne s i")
       (auto simp: payment_void_def reversePaymentAmount_def i_def Let_def split: if_splits)
  obtain po' where
    rv: "reversePaymentAmount env s i A = Inr (po', savePo s po')"
    and pa: "paidAmount po' = max 0 (toFixed2 (asDouble env (paidAmount po - A)))"
    and to: "totalAmount po' = totalAmount po"
    using reversePaymentAmount_result[OF po, of env A] by blast
  have id': "po_id po' = i"
    using rv po findOne_id[OF po] by (auto simp: reversePaymentAmount_def Let_def)
  define g where "g = (\<lambda>q. if payment_id q = pid then p' else q)"
  from ok p c rv have p': "p' = p\<lparr>payment_status := VOIDED, voidedAt := Some (now env),
                                 voidReason := Some reason\<rparr>"
    and s': "s' = (savePo s po')\<lparr>payments := map g (payments s)\<rparr>"
    by (auto simp: payment_void_def Let_def i_def A_def g_def payments_savePo split: if_splits)
  have Ka: "distinct (map payment_id (payments s))"
    and Kb: "\<forall>p \<in> set (payments s). 0 < amountPaid p \<and> twoDecimals (amountPaid p) \<and>
               (\<exists>po \<in> set (purchaseOrders s). po_id po = purchaseOrderId p)"
    and Kc: "\<forall>po \<in> set (purchaseOrders s). twoDecimals (totalAmount po) \<and>
               paidAmount po = completedFor (po_id po) (payments s)"
    using K by (simp_all add: ledgerConsistent_def)
  have pm: "p \<in> set (payments s)" "payment_id p = pid" using payment_findOne_mem[OF p] by simp_all
  have pom: "po \<in> set (purchaseOrders s)" "po_id po = i" using findOne_mem[OF po] by simp_all
  define f where "f = (\<lambda>r. if po_id r = i then po' else r)"
  have pos': "purchaseOrders s' = map f (purchaseOrders s)"
    by (simp add: s' savePo_def updateRow_def f_def id')
  have pays': "payments s' = map g (payments s)" by (simp add: s')
  have fid: "po_id (f x) = po_id x" for x by (simp add: f_def id')
  have gid: "payment_id (g q) = payment_id q" for q using pm by (simp add: g_def p')
  have gfk: "purchaseOrderId (g q) = purchaseOrderId q" if "q \<in> set (payments s)" for q
    using that pm Ka by (auto simp: g_def p' distinct_map inj_on_def)
  have gam: "amountPaid (g q) = amountPaid q" if "q \<in> set (payments s)" for q
    using that pm Ka by (auto simp: g_def p' distinct_map inj_on_def)
  have fp: "find (\<lambda>q. payment_id q = pid) (payments s) = Some p"
    using p by (auto simp: payment_findOne_def split: option.splits)
  have cf: "completedFor j (map g (payments s)) =
            completedFor j (payments s) - (if i = j then A else 0)" for j
    unfolding g_def using completedFor_void[OF Ka fp c, of p' j]
    by (simp add: p' i_def A_def)
  have paid_po: "paidAmount po = completedFor i (payments s)" using Kc pom by auto
  have d: "twoDecimals (paidAmount po)" "twoDecimals A"
    unfolding paid_po A_def using Kb pm by (auto intro: completedFor_twoDecimals)
  have "A \<le> completedFor i (payments s)"
    unfolding A_def i_def using Kb pm c by (intro completedFor_member) auto
  then have paid': "paidAmount po' = completedFor i (payments s) - A"
    using pa d paid_po by (simp add: fixed_twoDecimals twoDecimals_diff)
  show ?thesis unfolding ledgerConsistent_def pos' pays'
  proof (intro conjI ballI)
    have m: "map payment_id (map g (payments s)) = map payment_id (payments s)"
      by (simp add: comp_def gid)
    show "distinct (map payment_id (map g (payments s)))" unfolding m by (rule Ka)
  next
    fix q' assume "q' \<in> set (map g (payments s))"
    then obtain q where q: "q \<in> set (payments s)" "q' = g q" by auto
    show "0 < amountPaid q'" "twoDecimals (amountPaid q')" using q Kb gam by auto
    have "\<exists>x \<in> set (purchaseOrders s). po_id x = purchaseOrderId q'"
      using q Kb gfk by auto
    then show "\<exists>po \<in> set (map f (purchaseOrders s)). po_id po = purchaseOrderId q'"
      using fid by fastforce
  next
    fix x assume "x \<in> set (map f (purchaseOrders s))"
    then obtain y where y: "y \<in> set (purchaseOrders s)" "x = f y" by auto
    show "twoDecimals (totalAmount x)"
      using y Kc pom to by (auto simp: f_def)
    show "paidAmount x = completedFor (po_id x) (map g (payments s))"
    proof (cases "po_id y = i")
      case True
      then show ?thesis using y paid' id' by (simp add: f_def cf)
    next
      case False
      then show ?thesis using y Kc by (auto simp: f_def cf)
    qed
  qed
qed

text \<open>
  Every operation keeps the ledger consistent when its commit goes through, so every
  database reached from an empty one is consistent.
\<close>

lemma ledger_perform:
  assumes K: "ledgerConsistent s" and commit: "\<not> commitFails env" and v: "validated op"
  shows "ledgerConsistent (perform env s op)"
proof (cases op)
  case (CreatePo dto)
  then show ?thesis using K ledger_po_create[OF K]
    by (cases "po_create env s dto") (auto simp: perform_def storeOf_def)
next
  case (UpdatePo i dto)
  then show ?thesis using K ledger_po_update[OF K]
    by (cases "po_update s i dto") (auto simp: perform_def storeOf_def)
next
  case (MutateItems i m)
  then show ?thesis using K ledger_mutateItems[OF K]
    by (cases "mutateItems env s i m") (auto simp: perform_def storeOf_def)
next
  case (CancelPo i)
  then show ?thesis using K ledger_po_cancel[OF K]
    by (cases "po_cancel s i") (auto simp: perform_def storeOf_def)
next
  case MarkOverdue
  then show ?thesis using ledger_markOverdue[OF K] by (simp add: perform_def)
next
  case (RecordPayment dto)
  obtain r s' where e: "payment_create env s dto = (r, s')" by (cases "payment_create env s dto")
  show ?thesis
  proof (cases r)
    case (Inl err)
    then have "s' = s" using e payment_create_refused[OF commit] by blast
    then show ?thesis using K e RecordPayment by (simp add: perform_def)
  next
    case (Inr payment)
    then show ?thesis using e v RecordPayment ledger_payment_create[OF K]
      by (auto simp: perform_def validated_def)
  qed
next
  case (VoidPayment pid reason)
  obtain r s' where e: "payment_void env s pid reason = (r, s')"
    by (cases "payment_void env s pid reason")
  show ?thesis
  proof (cases r)
    case (Inl err)
    then have "s' = s" using e payment_void_refused[OF commit] by blast
    then show ?thesis using K e VoidPayment by (simp add: perform_def)
  next
    case (Inr p')
    then show ?thesis using e VoidPayment ledger_payment_void[OF K]
      by (auto simp: perform_def)
  qed
qed

lemma ledger_initial: "ledgerConsistent (initialStore vs)"
  by (simp add: ledgerConsistent_def initialStore_def)

lemma ledger_run:
  assumes "ledgerConsistent s"
    and "\<forall>(env, op) \<in> set ops. \<not> commitFails env \<and> validated op"
  shows "ledgerConsistent (run s ops)"
  using assms
proof (induction ops arbitrary: s)
  case Nil
  then show ?case by simp
next
  case (Cons x ops)
  obtain env op where x: "x = (env, op)" by (cases x)
  have "ledgerConsistent (perform env s op)"
    using Cons.prems x by (intro ledger_perform) auto
  then show ?case using Cons x by simp
qed

lemma ledger_facts:
  assumes K: "ledgerConsistent s" and po: "findOne s i = Inr po"
  shows "twoDecimals (paidAmount po)" and "twoDecimals (totalAmount po)"
    and "0 \<le> paidAmount po"
proof -
  from findOne_mem[OF po] K have e: "paidAmount po = completedFor i (payments s)"
    and t: "twoDecimals (totalAmount po)"
    by (auto simp: ledgerConsistent_def)
  show "twoDecimals (totalAmount po)" by (rule t)
  show "twoDecimals (paidAmount po)" unfolding e
    using K by (intro completedFor_twoDecimals) (simp add: ledgerConsistent_def)
  show "0 \<le> paidAmount po" unfolding e
    using K by (intro completedFor_nonneg) (simp add: ledgerConsistent_def)
qed

text \<open>Scenarios 1 and 2 of the specification as a run: create, approve, pay 5000.\<close>

lemma scenario_run:
  "run (initialStore [exampleVendor])
     [(exampleEnv, CreatePo exampleCreateDto), (exampleEnv, UpdatePo 1 approveDto),
      (exampleEnv, RecordPayment payment5000)] = partlyPaidStore"
  by code_simp

subsection \<open>Recording a payment\<close>

text \<open>
  \<^bold>\<open>C3\<close>, as the code has it. A payment above the outstanding amount is always refused
  and the database is left as it was: purchase orders and payments are the same. The
  refusal is \<open>PaymentExceedsOutstanding\<close> on an order that is APPROVED, PARTIALLY_PAID or
  OVERDUE; on a CANCELLED, PAID or PENDING order the status check comes first and the
  refusal is one of the three grouped as \<open>InvalidPoStateForPayment\<close>.
\<close>

theorem overpayment_refused:
  assumes "findOne s (p_purchaseOrderId dto) = Inr po"
    and "p_amountPaid dto > outstandingAmount po"
  shows "\<exists>e. payment_create env s dto = (Inl e, s) \<and>
           (status po \<in> {APPROVED, PARTIALLY_PAID, OVERDUE} \<longrightarrow>
              e = PaymentExceedsOutstanding) \<and>
           (status po \<in> {CANCELLED, PAID, PENDING} \<longrightarrow> e \<in> InvalidPoStateForPayment)"
  using assms
  by (cases "status po") (simp_all add: payment_create_def InvalidPoStateForPayment_def)

text \<open>An order of 11800 outstanding refuses a payment of 20000.\<close>

theorem overpayment_refused_witness:
  "findOne approvedStore (p_purchaseOrderId payment20000) = Inr approvedPo \<and>
   p_amountPaid payment20000 > outstandingAmount approvedPo \<and>
   status approvedPo \<in> {APPROVED, PARTIALLY_PAID, OVERDUE} \<and>
   payment_create exampleEnv approvedStore payment20000 =
     (Inl PaymentExceedsOutstanding, approvedStore)"
proof -
  have h1: "findOne approvedStore (p_purchaseOrderId payment20000) = Inr approvedPo"
    by code_simp
  have h2: "p_amountPaid payment20000 > outstandingAmount approvedPo"
    by code_simp
  have h3: "status approvedPo \<in> {APPROVED, PARTIALLY_PAID, OVERDUE}"
    by code_simp
  from overpayment_refused[OF h1 h2, of exampleEnv] h3
  have "payment_create exampleEnv approvedStore payment20000 =
          (Inl PaymentExceedsOutstanding, approvedStore)"
    by auto
  with h1 h2 h3 show ?thesis by blast
qed

text \<open>
  Scenario 3 of the specification: on the fully paid order, outstanding 0, a payment of 1
  exceeds the outstanding amount and is refused as already paid.
\<close>

theorem overpayment_error_counterexample:
  "findOne paidStore (p_purchaseOrderId payment1) = Inr paidPo \<and>
   p_amountPaid payment1 > outstandingAmount paidPo \<and>
   payment_create exampleEnv paidStore payment1 = (Inl PoAlreadyPaid, paidStore) \<and>
   PoAlreadyPaid \<noteq> PaymentExceedsOutstanding"
  by code_simp

text \<open>
  \<^bold>\<open>C4\<close>. In a consistent ledger, on an order that is APPROVED, PARTIALLY_PAID or
  OVERDUE, a payment that is positive, of two decimals, not above the outstanding amount
  and recorded successfully adds its amount to \<open>paidAmount\<close>, sets
  \<open>outstandingAmount\<close> to \<open>max 0 (totalAmount - paidAmount)\<close> and sets the status to
  PAID when that is not positive and to PARTIALLY_PAID otherwise.
\<close>

theorem recordPayment_updates:
  assumes K: "ledgerConsistent s"
    and po: "findOne s (p_purchaseOrderId dto) = Inr po"
    and st: "status po \<in> {APPROVED, PARTIALLY_PAID, OVERDUE}"
    and pos: "0 < p_amountPaid dto"
    and le: "p_amountPaid dto \<le> outstandingAmount po"
    and dec: "twoDecimals (p_amountPaid dto)"
    and ok: "payment_create env s dto = (Inr payment, s')"
  shows "\<exists>po'. findOne s' (p_purchaseOrderId dto) = Inr po' \<and>
           paidAmount po' = paidAmount po + p_amountPaid dto \<and>
           outstandingAmount po' = max 0 (totalAmount po - paidAmount po') \<and>
           status po' = (if outstandingAmount po' \<le> 0 then PAID else PARTIALLY_PAID)"
  using recordPayment_result[OF po st pos le dec ledger_facts[OF K po] ok] .

text \<open>Scenario 2 of the specification: 5000 on the approved order of 11800.\<close>

theorem recordPayment_updates_witness:
  "ledgerConsistent approvedStore \<and>
   findOne approvedStore (p_purchaseOrderId payment5000) = Inr approvedPo \<and>
   status approvedPo \<in> {APPROVED, PARTIALLY_PAID, OVERDUE} \<and>
   0 < p_amountPaid payment5000 \<and> p_amountPaid payment5000 \<le> outstandingAmount approvedPo \<and>
   twoDecimals (p_amountPaid payment5000) \<and>
   payment_create exampleEnv approvedStore payment5000 = (Inr examplePayment, partlyPaidStore) \<and>
   findOne partlyPaidStore 1 = Inr partlyPaidPo \<and>
   paidAmount partlyPaidPo = 5000 \<and> outstandingAmount partlyPaidPo = 6800 \<and>
   status partlyPaidPo = PARTIALLY_PAID"
proof -
  have h0: "ledgerConsistent approvedStore" by code_simp
  have h1: "findOne approvedStore (p_purchaseOrderId payment5000) = Inr approvedPo"
    by code_simp
  have h2: "status approvedPo \<in> {APPROVED, PARTIALLY_PAID, OVERDUE}"
    by code_simp
  have h3: "0 < p_amountPaid payment5000" by code_simp
  have h4: "p_amountPaid payment5000 \<le> outstandingAmount approvedPo" by code_simp
  have h5: "twoDecimals (p_amountPaid payment5000)" by code_simp
  have h6: "payment_create exampleEnv approvedStore payment5000 =
              (Inr examplePayment, partlyPaidStore)"
    by code_simp
  have f: "findOne partlyPaidStore 1 = Inr partlyPaidPo" by code_simp
  have v: "p_purchaseOrderId payment5000 = 1" "paidAmount approvedPo = 0"
    "p_amountPaid payment5000 = 5000" "totalAmount approvedPo = 11800" by code_simp+
  from recordPayment_updates[OF h0 h1 h2 h3 h4 h5 h6] f
  have "paidAmount partlyPaidPo = 5000 \<and> outstandingAmount partlyPaidPo = 6800 \<and>
        status partlyPaidPo = PARTIALLY_PAID"
    by (auto simp: v)
  with h0 h1 h2 h3 h4 h5 h6 f show ?thesis by blast
qed

subsection \<open>Voiding a payment\<close>

text \<open>The status that a reversal leaves is never OVERDUE, whatever the clock and the due
  date are.\<close>

lemma reversePaymentAmount_status:
  assumes "reversePaymentAmount env s i a = Inr (po', s')"
  shows "status po' = APPROVED \<or> status po' = PARTIALLY_PAID"
  using assms
  by (auto simp: reversePaymentAmount_def Let_def loaded_def split: sum.splits if_splits)

lemma payment_void_status:
  assumes "payment_void env s paymentId reason = (Inr p', s')"
    and "payment_findOne s paymentId = Inr p"
  shows "\<exists>po'. findOne s' (purchaseOrderId p) = Inr po' \<and>
           (status po' = APPROVED \<or> status po' = PARTIALLY_PAID)"
proof -
  from assms obtain po' s1 where
    r: "reversePaymentAmount env s (purchaseOrderId p) (amountPaid p) = Inr (po', s1)"
    and ps: "purchaseOrders s' = purchaseOrders s1"
    by (auto simp: payment_void_def Let_def split: if_splits sum.splits)
  from r obtain po where po: "findOne s (purchaseOrderId p) = Inr po"
    by (auto simp: reversePaymentAmount_def split: sum.splits)
  from reversePaymentAmount_result[OF po, of env "amountPaid p"] r
  have "findOne s1 (purchaseOrderId p) = Inr po'" by auto
  then have "findOne s' (purchaseOrderId p) = Inr po'" using ps by (simp add: findOne_def)
  then show ?thesis using reversePaymentAmount_status[OF r] by blast
qed

text \<open>
  \<^bold>\<open>C5\<close>, at a void after the due date and at a void repeated after a failed commit.
  The order of 11800 was due on 13 February and carries one payment of 5000. Voiding the
  payment on 23 February leaves nothing paid and the due date in the past, and the order
  is APPROVED, not OVERDUE: the due date of a loaded order is a date string, and the
  comparison with the clock is false. When the commit of a void fails, the order is
  reversed and the payment stays COMPLETED; voiding it again reverses the order again,
  and 16800 are outstanding on a total of 11800 with nothing paid.
\<close>

theorem void_misses_overdue:
  "findOne partlyPaidStore 1 = Inr partlyPaidPo \<and>
   payment_findOne partlyPaidStore 1 = Inr examplePayment \<and>
   payment_status examplePayment = COMPLETED \<and>
   dueDate partlyPaidPo < now lateEnv \<and>
   payment_void lateEnv partlyPaidStore 1 ''duplicate'' = (Inr lateVoidedPayment, lateVoidedStore) \<and>
   findOne lateVoidedStore 1 = Inr approvedPo \<and>
   paidAmount approvedPo = 0 \<and> status approvedPo = APPROVED \<and>
   payment_void failingEnv partlyPaidStore 1 ''duplicate'' = (Inl QueryFailed, halfVoidedStore) \<and>
   payment_findOne halfVoidedStore 1 = Inr examplePayment \<and>
   payment_void exampleEnv halfVoidedStore 1 ''duplicate'' = (Inr voidedPayment, twiceReversedStore) \<and>
   findOne twiceReversedStore 1 = Inr twiceReversedPo \<and>
   totalAmount twiceReversedPo = 11800 \<and> paidAmount twiceReversedPo = 0 \<and>
   outstandingAmount twiceReversedPo = 16800"
  by code_simp

subsection \<open>The two writes of a payment\<close>

text \<open>
  \<^bold>\<open>C2\<close>, at a commit that fails. Recording 5000 on the approved order: the caller gets
  the error and no payment row exists, but the order keeps \<open>paidAmount = 5000\<close>,
  \<open>outstandingAmount = 6800\<close> and PARTIALLY_PAID. Voiding that payment: the caller gets
  the error and the payment is still COMPLETED, but the order is back to
  \<open>paidAmount = 0\<close> and APPROVED.
\<close>

theorem payment_writes_not_atomic:
  "payment_create failingEnv approvedStore payment5000 =
     (Inl QueryFailed,
      \<lparr>vendors = [exampleVendor], purchaseOrders = [partlyPaidPo], payments = []\<rparr>) \<and>
   payment_void failingEnv partlyPaidStore 1 ''duplicate'' =
     (Inl QueryFailed,
      \<lparr>vendors = [exampleVendor], purchaseOrders = [approvedPo],
       payments = [examplePayment]\<rparr>)"
  by code_simp

subsection \<open>Reference allocation\<close>

text \<open>
  Below the limit the allocator is right. When the day string has no dash and every
  reference of the day is the prefix followed by a dash and a sequence number of three
  digits below 999, the next reference has that form with a sequence number from 1 to
  999 and is not taken.
\<close>

lemma digit_facts:
  "\<forall>d \<in> set [0..<10]. isDigit (digits ! d) \<and> digitValue (digits ! d) = d \<and>
      (of_char (digits ! d) :: nat) = 48 + d \<and> digits ! d \<noteq> CHR ''-''"
  by code_simp

lemma digit:
  assumes "d < 10"
  shows "isDigit (digits ! d)" "digitValue (digits ! d) = d"
    "(of_char (digits ! d) :: nat) = 48 + d" "digits ! d \<noteq> CHR ''-''"
  using digit_facts assms by auto

lemma toString_one: "n < 10 \<Longrightarrow> toString n = [digits ! n]"
  by (subst toString.simps) simp

lemma toString_two:
  "10 \<le> n \<Longrightarrow> n < 100 \<Longrightarrow> toString n = [digits ! (n div 10), digits ! (n mod 10)]"
  by (subst toString.simps) (simp add: toString_one)

lemma toString_three:
  "100 \<le> n \<Longrightarrow> n < 1000 \<Longrightarrow>
   toString n = [digits ! (n div 100), digits ! (n div 10 mod 10), digits ! (n mod 10)]"
  by (subst toString.simps) (simp add: toString_two div_mult2_eq[symmetric])

lemma threeDigits:
  assumes "n < 1000"
  shows "padStart3 (toString n) =
           [digits ! (n div 100), digits ! (n div 10 mod 10), digits ! (n mod 10)]"
proof -
  have z: "digits ! 0 = CHR ''0''" by (simp add: digits_def)
  consider "n < 10" | "10 \<le> n" "n < 100" | "100 \<le> n" by linarith
  then show ?thesis
  proof cases
    case 1
    then show ?thesis by (simp add: toString_one padStart3_def z numeral_2_eq_2)
  next
    case 2
    then show ?thesis by (simp add: toString_two padStart3_def z)
  next
    case 3
    then show ?thesis using assms by (simp add: toString_three padStart3_def)
  qed
qed

lemma decimal:
  assumes "n < 1000"
  obtains a b c where "a < 10" "b < 10" "c < 10" "n = 100 * a + 10 * b + c"
    "padStart3 (toString n) = [digits ! a, digits ! b, digits ! c]"
proof -
  have a: "n div 100 < 10" using assms by (simp add: less_mult_imp_div_less)
  have "n mod (10 * 10) = 10 * (n div 10 mod 10) + n mod 10" by (rule mod_mult2_eq)
  then have m: "n mod 100 = 10 * (n div 10 mod 10) + n mod 10" by simp
  have "n = 100 * (n div 100) + n mod 100" by simp
  then have e: "n = 100 * (n div 100) + 10 * (n div 10 mod 10) + n mod 10" using m by simp
  have "n div 10 mod 10 < 10" "n mod 10 < 10" by simp_all
  then show ?thesis using that a e threeDigits[OF assms] by blast
qed

lemma parseInt_threeDigits:
  assumes "n < 1000"
  shows "parseInt (Some (padStart3 (toString n))) = Some n"
proof -
  from decimal[OF assms] obtain a b c where
    d: "a < 10" "b < 10" "c < 10" "n = 100 * a + 10 * b + c"
    "padStart3 (toString n) = [digits ! a, digits ! b, digits ! c]" by blast
  show ?thesis unfolding d(5) using d(1-3) by (simp add: parseInt_def digit Let_def d(4))
qed

lemma nodash_threeDigits:
  assumes "n < 1000"
  shows "CHR ''-'' \<notin> set (padStart3 (toString n))"
proof -
  from decimal[OF assms] obtain a b c where
    d: "a < 10" "b < 10" "c < 10"
    "padStart3 (toString n) = [digits ! a, digits ! b, digits ! c]" by blast
  show ?thesis unfolding d(4) using digit(4)[OF d(1)] digit(4)[OF d(2)] digit(4)[OF d(3)]
    by auto
qed

lemma digits_inj:
  assumes "x < 10" "y < 10" "digits ! x = digits ! y"
  shows "x = y"
proof -
  have "x = digitValue (digits ! x)" using digit(2)[OF assms(1)] by simp
  also have "\<dots> = digitValue (digits ! y)" by (simp only: assms(3))
  also have "\<dots> = y" using digit(2)[OF assms(2)] by simp
  finally show ?thesis .
qed

lemma lex3:
  fixes a b c a' b' c' :: nat
  assumes "b < 10" "c < 10" "b' < 10" "c' < 10"
  shows "(a < a' \<or> a = a' \<and> (b < b' \<or> b = b' \<and> c < c')) \<longleftrightarrow>
         100 * a + 10 * b + c < 100 * a' + 10 * b' + c'"
proof -
  consider "a < a'" | "a' < a" | "a = a'" "b < b'" | "a = a'" "b' < b" | "a = a'" "b = b'"
    by linarith
  then show ?thesis
  proof cases
    case 1
    then have "100 * a + 10 * b + c < 100 * a' + 10 * b' + c'" using assms by linarith
    then show ?thesis using 1 by simp
  next
    case 2
    then have "\<not> 100 * a + 10 * b + c < 100 * a' + 10 * b' + c'" using assms by linarith
    then show ?thesis using 2 by simp
  next
    case 3
    then have "100 * a + 10 * b + c < 100 * a' + 10 * b' + c'" using assms by linarith
    then show ?thesis using 3 by simp
  next
    case 4
    then have "\<not> 100 * a + 10 * b + c < 100 * a' + 10 * b' + c'" using assms by linarith
    then show ?thesis using 4 by simp
  next
    case 5
    then show ?thesis by simp
  qed
qed


lemma str_less_digits:
  assumes "a < 10" "b < 10" "c < 10" "a' < 10" "b' < 10" "c' < 10"
  shows "str_less [digits ! a, digits ! b, digits ! c] [digits ! a', digits ! b', digits ! c'] \<longleftrightarrow>
        a < a' \<or> a = a' \<and> (b < b' \<or> b = b' \<and> c < c')"
proof -
  have e: "digits ! x = digits ! y \<longleftrightarrow> x = y" if "x < 10" "y < 10" for x y
    using digits_inj[OF that] by blast
  show ?thesis
    by (simp add: digit(3)[OF assms(1)] digit(3)[OF assms(2)] digit(3)[OF assms(3)]
          digit(3)[OF assms(4)] digit(3)[OF assms(5)] digit(3)[OF assms(6)]
          e[OF assms(1) assms(4)] e[OF assms(2) assms(5)] e[OF assms(3) assms(6)])
qed

lemma str_less_threeDigits:
  assumes "m < 1000" "n < 1000"
  shows "str_less (padStart3 (toString m)) (padStart3 (toString n)) \<longleftrightarrow> m < n"
proof -
  from decimal[OF assms(1)] obtain a b c where
    d: "a < 10" "b < 10" "c < 10" "m = 100 * a + 10 * b + c"
    "padStart3 (toString m) = [digits ! a, digits ! b, digits ! c]" by blast
  from decimal[OF assms(2)] obtain a' b' c' where
    e: "a' < 10" "b' < 10" "c' < 10" "n = 100 * a' + 10 * b' + c'"
    "padStart3 (toString n) = [digits ! a', digits ! b', digits ! c']" by blast
  have "str_less (padStart3 (toString m)) (padStart3 (toString n)) \<longleftrightarrow>
        a < a' \<or> a = a' \<and> (b < b' \<or> b = b' \<and> c < c')"
    unfolding d(5) e(5) by (rule str_less_digits[OF d(1-3) e(1-3)])
  also have "\<dots> \<longleftrightarrow> 100 * a + 10 * b + c < 100 * a' + 10 * b' + c'"
    using d(2,3) e(2,3) by (rule lex3)
  finally show ?thesis using d(4) e(4) by simp
qed

lemma str_less_prefix: "str_less (p @ xs) (p @ ys) = str_less xs ys"
  by (induction p) simp_all

lemma split_nonempty: "split c xs \<noteq> []"
  by (induction xs) (auto split: list.splits)

lemma split_none: "c \<notin> set xs \<Longrightarrow> split c xs = [xs]"
  by (induction xs) auto

lemma split_first: "c \<notin> set xs \<Longrightarrow> split c (xs @ c # ys) = xs # split c ys"
  by (induction xs) auto

lemma split_reference:
  assumes "c \<notin> set a" "c \<notin> set b" "c \<notin> set t"
  shows "elementAt (split c (a @ [c] @ b @ [c] @ t)) 2 = Some t"
  using assms by (simp add: split_first split_none elementAt_def)

lemma startsWith_append: "startsWith p (p @ xs)"
  by (simp add: startsWith_def)

text \<open>The latest of a list on which the string order is the order of a key.\<close>

lemma latest_key:
  assumes "xs \<noteq> []"
    and "\<forall>x \<in> set xs. \<forall>y \<in> set xs. str_less x y = (key x < (key y :: nat))"
  shows "\<exists>m \<in> set xs. latest xs = Some m \<and> (\<forall>x \<in> set xs. key x \<le> key m)"
  using assms
proof (induction xs)
  case Nil
  then show ?case by simp
next
  case (Cons x xs)
  show ?case
  proof (cases "xs = []")
    case True
    then show ?thesis by simp
  next
    case False
    with Cons obtain m where m: "m \<in> set xs" "latest xs = Some m" "\<forall>y \<in> set xs. key y \<le> key m"
      by auto
    have o: "str_less m x = (key m < key x)" using Cons.prems(2) m(1) by simp
    show ?thesis
    proof (cases "key m < key x")
      case True
      then show ?thesis using m o by (auto intro!: bexI[of _ x])
    next
      case False
      then show ?thesis using m o by (auto intro!: bexI[of _ m])
    qed
  qed
qed

lemma sequence_of_reference:
  assumes "CHR ''-'' \<notin> set a" "CHR ''-'' \<notin> set b" "n < 1000"
  shows "parseInt (elementAt (split (CHR ''-'') (a @ ''-'' @ b @ ''-'' @ padStart3 (toString n))) 2)
         = Some n"
  using split_reference[OF assms(1,2) nodash_threeDigits[OF assms(3)]]
    parseInt_threeDigits[OF assms(3)]
  by simp

lemma nextReference_below_limit:
  assumes a: "CHR ''-'' \<notin> set a" and b: "CHR ''-'' \<notin> set b"
    and wf: "\<forall>r \<in> set existing. startsWith (a @ ''-'' @ b) r \<longrightarrow>
               (\<exists>n < 999. r = a @ ''-'' @ b @ ''-'' @ padStart3 (toString n))"
  shows "nextReference (a @ ''-'' @ b) existing \<notin> set existing \<and>
         (\<exists>n. 0 < n \<and> n < 1000 \<and>
            nextReference (a @ ''-'' @ b) existing =
              a @ ''-'' @ b @ ''-'' @ padStart3 (toString n))"
proof -
  define P where "P = a @ ''-'' @ b"
  define ref where "ref = (\<lambda>n. a @ ''-'' @ b @ ''-'' @ padStart3 (toString n))"
  define W where "W = filter (startsWith P) existing"
  define key where
    "key = (\<lambda>r. case parseInt (elementAt (split (CHR ''-'') r) 2) of None \<Rightarrow> 0 | Some k \<Rightarrow> k)"
  have refP: "ref n = P @ ''-'' @ padStart3 (toString n)" for n by (simp add: ref_def P_def)
  have key_ref: "key (ref n) = n" if "n < 1000" for n
    unfolding key_def ref_def using sequence_of_reference[OF a b that] by simp
  have starts: "startsWith P (ref n)" for n unfolding refP by (rule startsWith_append)
  have Wref: "\<exists>n < 999. r = ref n" if "r \<in> set W" for r
    using that wf by (auto simp: W_def P_def ref_def)
  have less: "str_less (ref m) (ref n) = (m < n)" if "m < 1000" "n < 1000" for m n
    unfolding refP str_less_prefix using that by (rule str_less_threeDigits)
  have order: "\<forall>x \<in> set W. \<forall>y \<in> set W. str_less x y = (key x < key y)"
  proof (intro ballI)
    fix x y assume "x \<in> set W" "y \<in> set W"
    then obtain m n where "m < 999" "x = ref m" "n < 999" "y = ref n" using Wref by blast
    then show "str_less x y = (key x < key y)" by (simp add: less key_ref)
  qed
  have fresh: "ref n \<notin> set existing" if "n < 1000" "\<forall>x \<in> set W. key x < n" for n
  proof
    assume "ref n \<in> set existing"
    then have "ref n \<in> set W" using starts by (simp add: W_def)
    then show False using that key_ref by force
  qed
  have next_ref: "nextReference P existing =
      P @ ''-'' @ padStart3 (numberToString
        (case latest W of None \<Rightarrow> Some 1
         | Some r \<Rightarrow> (case parseInt (elementAt (split (CHR ''-'') r) 2) of
                        None \<Rightarrow> None | Some k \<Rightarrow> Some (k + 1))))"
    by (simp add: nextReference_def W_def Let_def)
  have "\<exists>n. 0 < n \<and> n < 1000 \<and> nextReference P existing = ref n \<and> (\<forall>x \<in> set W. key x < n)"
  proof (cases "W = []")
    case True
    then have "nextReference P existing = ref 1"
      unfolding next_ref refP by (simp add: numberToString_def)
    then show ?thesis using True by (intro exI[of _ 1]) simp
  next
    case False
    from latest_key[OF False order] obtain m where
      m: "m \<in> set W" "latest W = Some m" "\<forall>x \<in> set W. key x \<le> key m" by blast
    from Wref[OF m(1)] obtain k where k: "k < 999" "m = ref k" by blast
    have p: "parseInt (elementAt (split (CHR ''-'') m) 2) = Some k"
      unfolding k(2) ref_def using sequence_of_reference[OF a b, of k] k(1) by simp
    have "nextReference P existing = ref (k + 1)"
      unfolding next_ref refP by (simp add: m(2) p numberToString_def)
    moreover have "\<forall>x \<in> set W. key x < k + 1"
      using m(3) key_ref[of k] k by fastforce
    ultimately show ?thesis using k(1) by (intro exI[of _ "k + 1"]) simp
  qed
  then obtain n where n: "0 < n" "n < 1000" "nextReference P existing = ref n"
    "\<forall>x \<in> set W. key x < n" by blast
  have "nextReference P existing \<notin> set existing" unfolding n(3) using n(2,4) by (rule fresh)
  then show ?thesis using n unfolding P_def ref_def by blast
qed

lemma generatePoNumber_below_limit:
  assumes "CHR ''-'' \<notin> set (dateStr env)"
    and "\<forall>po \<in> set (purchaseOrders s). startsWith (''PO-'' @ dateStr env) (poNumber po) \<longrightarrow>
           (\<exists>n < 999. poNumber po = ''PO-'' @ dateStr env @ ''-'' @ padStart3 (toString n))"
  shows "generatePoNumber env s \<notin> set (map poNumber (purchaseOrders s)) \<and>
         (\<exists>n. 0 < n \<and> n < 1000 \<and>
            generatePoNumber env s = ''PO-'' @ dateStr env @ ''-'' @ padStart3 (toString n))"
proof -
  have "CHR ''-'' \<notin> set ''PO''" by simp
  from nextReference_below_limit[OF this assms(1), of "map poNumber (purchaseOrders s)"] assms(2)
  show ?thesis by (simp add: generatePoNumber_def)
qed

lemma generatePaymentReference_below_limit:
  assumes "CHR ''-'' \<notin> set (dateStr env)"
    and "\<forall>p \<in> set (payments s). startsWith (''PAY-'' @ dateStr env) (paymentReference p) \<longrightarrow>
           (\<exists>n < 999. paymentReference p =
              ''PAY-'' @ dateStr env @ ''-'' @ padStart3 (toString n))"
  shows "generatePaymentReference env s \<notin> set (map paymentReference (payments s)) \<and>
         (\<exists>n. 0 < n \<and> n < 1000 \<and>
            generatePaymentReference env s =
              ''PAY-'' @ dateStr env @ ''-'' @ padStart3 (toString n))"
proof -
  have "CHR ''-'' \<notin> set ''PAY''" by simp
  from nextReference_below_limit[OF this assms(1), of "map paymentReference (payments s)"]
    assms(2)
  show ?thesis by (simp add: generatePaymentReference_def)
qed

text \<open>
  \<^bold>\<open>C7\<close>, at the end of the three digits. With \<^verbatim>\<open>PO-20260114-999\<close> as the latest
  number of the day, \<^verbatim>\<open>create\<close> succeeds and stores the four-digit
  \<^verbatim>\<open>PO-20260114-1000\<close>. From then on the latest number in descending string order is
  still \<^verbatim>\<open>...-999\<close>, the allocator returns \<^verbatim>\<open>PO-20260114-1000\<close> again, and
  \<^verbatim>\<open>create\<close> fails on the unique index. Payment references behave the same. No
  request is refused as \<open>SequenceExhausted\<close>.
\<close>

theorem sequence_not_exhausted:
  "po_create exampleEnv store999 exampleCreateDto = Inr (po1000, store1000) \<and>
   poNumber po1000 = ''PO-20260114-1000'' \<and>
   generatePoNumber exampleEnv store1000 = ''PO-20260114-1000'' \<and>
   po_create exampleEnv store1000 exampleCreateDto = Inl QueryFailed \<and>
   generatePaymentReference exampleEnv paymentStore999 = ''PAY-20260114-1000'' \<and>
   generatePaymentReference exampleEnv paymentStore1000 = ''PAY-20260114-1000'' \<and>
   payment_create exampleEnv paymentStore1000 payment1 = (Inl QueryFailed, paymentStore1000)"
  by code_simp

subsection \<open>Creating a purchase order\<close>

lemma dateColumn_days: "dateColumn (d + n * msPerDay) = dateColumn d + n * msPerDay"
  by (simp add: dateColumn_def msPerDay_def algebra_simps)

lemma days_before: "n < 0 \<Longrightarrow> n * msPerDay < 0"
  by (simp add: msPerDay_def mult_less_0_iff)

lemma spec_lines:
  "itemSubtotal = specLineSubtotal" "itemDiscount = specLineDiscount" "itemTax = specLineTax"
  by (auto simp: fun_eq_iff itemSubtotal_def itemDiscount_def itemTax_def afterDiscount_def
        orZero_def percentage_def specLineSubtotal_def specLineDiscount_def specLineTax_def
        algebra_simps
      split: option.splits)

text \<open>
  What \<^verbatim>\<open>create\<close> stores when the allocated number is free and the transaction
  commits: an order that is PENDING with nothing paid and the whole total outstanding,
  due the days of the vendor's payment terms after its date (before it when the days are
  negative), with the caller's tax and discount where given and the rounded sums over
  the items otherwise, and with the rounded total of subtotal, discount and tax.
\<close>

lemma create_result:
  assumes v: "find (\<lambda>v. vendor_id v = c_vendorId dto) (vendors s) = Some vendor"
    and a: "vendor_status vendor = ACTIVE"
    and fresh: "generatePoNumber env s \<notin> set (map poNumber (purchaseOrders s))"
    and commit: "\<not> commitFails env"
  shows "\<exists>po. po_create env s dto = Inr (po, s\<lparr>purchaseOrders := purchaseOrders s @ [po]\<rparr>) \<and>
      status po = PENDING \<and> paidAmount po = 0 \<and> outstandingAmount po = totalAmount po \<and>
      vendorId po = c_vendorId dto \<and>
      poDate po = dateColumn (case c_poDate dto of None \<Rightarrow> now env | Some d \<Rightarrow> d) \<and>
      dueDate po = poDate po + daysMap (paymentTerms vendor) * msPerDay \<and>
      (daysMap (paymentTerms vendor) < 0 \<longrightarrow> dueDate po < poDate po) \<and>
      (case c_taxAmount dto of
         Some t \<Rightarrow> taxAmount po = t
       | None \<Rightarrow> roundedTo2 (sum_list (map specLineTax (c_items dto))) (taxAmount po)) \<and>
      (case c_discountAmount dto of
         Some d \<Rightarrow> discountAmount po = d
       | None \<Rightarrow> roundedTo2 (sum_list (map specLineDiscount (c_items dto))) (discountAmount po)) \<and>
      roundedTo2 (sum_list (map specLineSubtotal (c_items dto))) (subtotal po) \<and>
      roundedTo2
        (sum_list (map specLineSubtotal (c_items dto)) - discountAmount po + taxAmount po)
        (totalAmount po)"
proof -
  have id: "vendor_id vendor = c_vendorId dto"
    using v by (auto simp: find_Some_iff)
  show ?thesis
    using v a fresh commit id
    by (simp add: po_create_def sumItems_sum calculateDueDate_def dateColumn_days days_before
          roundedTo2_fixed spec_lines Let_def
        split: option.splits)
qed

text \<open>So on a day with fewer than 999 numbers allocated, \<^verbatim>\<open>create\<close> persists that
  order for every existing ACTIVE vendor when the transaction commits.\<close>

lemma create_below_limit:
  assumes v: "find (\<lambda>v. vendor_id v = c_vendorId dto) (vendors s) = Some vendor"
    and a: "vendor_status vendor = ACTIVE"
    and day: "CHR ''-'' \<notin> set (dateStr env)"
    and wf: "\<forall>po \<in> set (purchaseOrders s).
               startsWith (''PO-'' @ dateStr env) (poNumber po) \<longrightarrow>
               (\<exists>n < 999. poNumber po = ''PO-'' @ dateStr env @ ''-'' @ padStart3 (toString n))"
    and commit: "\<not> commitFails env"
  shows "\<exists>po. po_create env s dto = Inr (po, s\<lparr>purchaseOrders := purchaseOrders s @ [po]\<rparr>) \<and>
           poNumber po \<notin> set (map poNumber (purchaseOrders s)) \<and>
           status po = PENDING \<and> paidAmount po = 0 \<and> outstandingAmount po = totalAmount po"
proof -
  from generatePoNumber_below_limit[OF day wf]
  have fresh: "generatePoNumber env s \<notin> set (map poNumber (purchaseOrders s))" by blast
  from create_result[OF v a fresh commit] obtain po where
    po: "po_create env s dto = Inr (po, s\<lparr>purchaseOrders := purchaseOrders s @ [po]\<rparr>)"
      "status po = PENDING" "paidAmount po = 0" "outstandingAmount po = totalAmount po"
    by blast
  from po(1) v a have "poNumber po = generatePoNumber env s"
    by (auto simp: po_create_def Let_def split: if_splits prod.splits)
  then show ?thesis using po fresh by auto
qed

text \<open>
  \<^bold>\<open>C8\<close>, at the purchase order after number 1000 of a day. The vendor exists and is
  ACTIVE, the item list is not empty and the commit would go through, but the allocator
  returns \<^verbatim>\<open>PO-20260114-1000\<close>, which is taken: \<^verbatim>\<open>create\<close> fails on the unique
  index and persists nothing.
\<close>

theorem create_fails_on_taken_number:
  "find (\<lambda>v. vendor_id v = c_vendorId exampleCreateDto) (vendors store1000) = Some exampleVendor \<and>
   vendor_status exampleVendor = ACTIVE \<and> c_items exampleCreateDto \<noteq> [] \<and>
   \<not> commitFails exampleEnv \<and>
   generatePoNumber exampleEnv store1000 \<in> set (map poNumber (purchaseOrders store1000)) \<and>
   po_create exampleEnv store1000 exampleCreateDto = Inl QueryFailed"
  by code_simp

subsection \<open>Item mutations\<close>












subsection \<open>Overdue sweep\<close>

text \<open>
  \<^bold>\<open>C9\<close>. The sweep sets to OVERDUE exactly the purchase orders with
  \<open>dueDate < today\<close>, a positive outstanding amount and a status PENDING, APPROVED or
  PARTIALLY_PAID, changes nothing else, and returns how many they are. A second sweep
  with the same \<open>today\<close> returns 0 and leaves the database as the first one left it.
\<close>

theorem sweep_exact_and_idempotent:
  assumes "markOverduePurchaseOrders today s = (n, s')"
  shows "n = length (filter (\<lambda>po. dueDate po < today \<and> outstandingAmount po > 0 \<and>
                status po \<in> {PENDING, APPROVED, PARTIALLY_PAID}) (purchaseOrders s)) \<and>
         purchaseOrders s' =
           map (\<lambda>po. if dueDate po < today \<and> outstandingAmount po > 0 \<and>
                         status po \<in> {PENDING, APPROVED, PARTIALLY_PAID}
                      then po\<lparr>status := OVERDUE\<rparr> else po) (purchaseOrders s) \<and>
         vendors s' = vendors s \<and> payments s' = payments s \<and>
         markOverduePurchaseOrders today s' = (0, s')"
proof -
  have c: "overdueCandidate today = (\<lambda>po. dueDate po < today \<and> outstandingAmount po > 0 \<and>
                status po \<in> {PENDING, APPROVED, PARTIALLY_PAID})"
    by (auto simp: overdueCandidate_def fun_eq_iff)
  have n: "n = length (filter (overdueCandidate today) (purchaseOrders s))"
    and s': "s' = s\<lparr>purchaseOrders :=
          map (\<lambda>po. if overdueCandidate today po then po\<lparr>status := OVERDUE\<rparr> else po)
            (purchaseOrders s)\<rparr>"
    using assms by (auto simp: markOverduePurchaseOrders_def)
  have no: "\<not> overdueCandidate today po" if "po \<in> set (purchaseOrders s')" for po
    using that by (auto simp: s' overdueCandidate_def)
  then have f: "filter (overdueCandidate today) (purchaseOrders s') = []"
    by (auto simp: filter_empty_conv)
  have m: "map (\<lambda>po. if overdueCandidate today po then po\<lparr>status := OVERDUE\<rparr> else po)
            (purchaseOrders s') = purchaseOrders s'"
    using no by (induction "purchaseOrders s'") (auto simp: map_idI)
  have "markOverduePurchaseOrders today s' = (0, s')"
    by (simp add: markOverduePurchaseOrders_def f m)
  then show ?thesis using n s' c by simp
qed

text \<open>Of three orders past their due date, the two with an amount outstanding are swept.\<close>

theorem sweep_exact_and_idempotent_witness:
  "markOverduePurchaseOrders (exampleNow + 40 * msPerDay) sweepStore = (2, sweptStore) \<and>
   markOverduePurchaseOrders (exampleNow + 40 * msPerDay) sweptStore = (0, sweptStore)"
proof -
  have e: "markOverduePurchaseOrders (exampleNow + 40 * msPerDay) sweepStore = (2, sweptStore)" by code_simp
  from sweep_exact_and_idempotent[OF e] e show ?thesis by blast
qed

subsection \<open>The monetary invariant\<close>

text \<open>
  Where the invariant of the specification holds: after creation with overrides of two
  decimals, for the balance after an item mutation, after a recorded payment, after a
  void whose amount is part of the paid amount, after the sweep, and after an update that
  carries neither a tax nor a discount amount.
\<close>

lemma hundredth_step:
  assumes "twoDecimals D" and "\<bar>D\<bar> < 2 / 100"
  shows "\<bar>D\<bar> \<le> 1 / 100"
proof -
  from assms(1) obtain k :: int where k: "D = of_int k / 100" using twoDecimals_iff by blast
  then have "\<bar>of_int k :: real\<bar> < 2" using assms(2) by simp
  then have "\<bar>k\<bar> < 2" by linarith
  then have "\<bar>k\<bar> \<le> 1" by simp
  then have "\<bar>of_int k :: real\<bar> \<le> 1" by linarith
  then show ?thesis using k by simp
qed

lemma recomputed_balance:
  assumes "recomputed env po" and "twoDecimals (paidAmount po)"
  shows "balanceInvariant po"
proof -
  define x where "x = sum_list (map itemSubtotal (items po)) -
    sum_list (map itemDiscount (items po)) + sum_list (map itemTax (items po))"
  have t: "totalAmount po = toFixed2 (asDouble env x)"
    and o: "outstandingAmount po = toFixed2 (asDouble env (x - paidAmount po))"
    using assms by (simp_all add: recomputed_def Let_def x_def)
  have "twoDecimals (paidAmount po + outstandingAmount po - totalAmount po)"
    unfolding t o using assms(2)
    by (intro twoDecimals_diff twoDecimals_add twoDecimals_toFixed2)
  moreover have "\<bar>paidAmount po + outstandingAmount po - totalAmount po\<bar> < 2 / 100"
    unfolding t o using fixed_close[of env x] fixed_close[of env "x - paidAmount po"]
    by linarith
  ultimately show ?thesis unfolding balanceInvariant_def by (rule hundredth_step)
qed

lemma create_invariants:
  assumes c: "po_create env s dto = Inr (po, s')"
    and tax: "\<forall>t. c_taxAmount dto = Some t \<longrightarrow> twoDecimals t"
    and disc: "\<forall>d. c_discountAmount dto = Some d \<longrightarrow> twoDecimals d"
  shows "balanceInvariant po" and "totalInvariant po"
proof -
  define sub where "sub = sum_list (map itemSubtotal (c_items dto))"
  from c have f: "paidAmount po = 0" "outstandingAmount po = totalAmount po"
    "subtotal po = toFixed2 (asDouble env sub)"
    "totalAmount po = toFixed2 (asDouble env (sub - discountAmount po + taxAmount po))"
    by (auto simp: po_create_def sumItems_sum Let_def sub_def split: option.splits if_splits)
  from c tax have dt: "twoDecimals (taxAmount po)"
    by (auto simp: po_create_def sumItems_sum Let_def twoDecimals_toFixed2
             split: option.splits if_splits)
  from c disc have dd: "twoDecimals (discountAmount po)"
    by (auto simp: po_create_def sumItems_sum Let_def twoDecimals_toFixed2
             split: option.splits if_splits)
  show "balanceInvariant po" by (simp add: balanceInvariant_def f)
  have "twoDecimals (totalAmount po - (subtotal po - discountAmount po + taxAmount po))"
    unfolding f(3) using dt dd f(4)
    by (intro twoDecimals_diff twoDecimals_add) (simp_all add: twoDecimals_toFixed2)
  moreover have "\<bar>totalAmount po - (subtotal po - discountAmount po + taxAmount po)\<bar> < 2 / 100"
    unfolding f(3) using f(4) fixed_close[of env sub]
      fixed_close[of env "sub - discountAmount po + taxAmount po"]
    by linarith
  ultimately show "totalInvariant po" unfolding totalInvariant_def by (rule hundredth_step)
qed

lemma item_mutation_invariants:
  assumes "mutateItems env s i m = Inr (po', s')" and "twoDecimals (paidAmount po')"
  shows "balanceInvariant po'"
proof -
  from mutateItems_success[OF assms(1)] obtain po where "findOne s i = Inr po" "applicable po m"
    by blast
  from mutateItems_result[OF this, of env] assms(1) have "recomputed env po'" by auto
  then show ?thesis using assms(2) by (rule recomputed_balance)
qed

lemma recordPayment_invariants:
  assumes po: "findOne s (p_purchaseOrderId dto) = Inr po"
    and ok: "payment_create env s dto = (Inr payment, s')"
  shows "\<exists>po'. findOne s' (p_purchaseOrderId dto) = Inr po' \<and> balanceInvariant po' \<and>
           (totalInvariant po \<longrightarrow> totalInvariant po')"
proof -
  have id: "po_id po = p_purchaseOrderId dto" using po by (rule findOne_id)
  from ok po obtain po' s1 where
    upd: "updatePaymentAmounts env s (po_id po) (p_amountPaid dto) = Inr (po', s1)"
    and s': "s' = s1\<lparr>payments := payments s1 @ [payment]\<rparr>"
    by (auto simp: payment_create_def Let_def split: if_splits sum.splits)
  from po id have po2: "findOne s (po_id po) = Inr po" by simp
  note r = updatePaymentAmounts_result[OF upd po2]
  have "findOne s1 (po_id po) = Inr po'"
    using r(9,10) po2 findOne_savePo[of s "po_id po" po po'] by simp
  then have f: "findOne s' (p_purchaseOrderId dto) = Inr po'"
    using id by (simp add: s' findOne_def)
  have "0 \<le> toFixed2 (asDouble env (totalAmount po - paidAmount po'))"
    using r(2) by (intro fixed_nonneg) simp
  then have o: "outstandingAmount po' = toFixed2 (asDouble env (totalAmount po - paidAmount po'))"
    using r(3) by simp
  from fixed_close[of env "totalAmount po - paidAmount po'"]
  have "balanceInvariant po'" unfolding balanceInvariant_def o r(5) by linarith
  moreover have "totalInvariant po \<longrightarrow> totalInvariant po'"
    by (simp add: totalInvariant_def r(5,6,7,8))
  ultimately show ?thesis using f by blast
qed

lemma voidPayment_invariants:
  assumes p: "payment_findOne s paymentId = Inr p"
    and po: "findOne s (purchaseOrderId p) = Inr po"
    and le: "0 \<le> toFixed2 (asDouble env (paidAmount po - amountPaid p))"
    and ok: "payment_void env s paymentId reason = (Inr p', s')"
  shows "\<exists>po'. findOne s' (purchaseOrderId p) = Inr po' \<and> balanceInvariant po' \<and>
           (totalInvariant po \<longrightarrow> totalInvariant po')"
proof -
  obtain po' where
    r: "reversePaymentAmount env s (purchaseOrderId p) (amountPaid p) = Inr (po', savePo s po')"
    and f: "findOne (savePo s po') (purchaseOrderId p) = Inr po'"
    and pa: "paidAmount po' = max 0 (toFixed2 (asDouble env (paidAmount po - amountPaid p)))"
    and ou: "outstandingAmount po' =
               toFixed2 (asDouble env
                 (totalAmount po - toFixed2 (asDouble env (paidAmount po - amountPaid p))))"
    and same: "totalAmount po' = totalAmount po" "subtotal po' = subtotal po"
      "taxAmount po' = taxAmount po" "discountAmount po' = discountAmount po"
    using reversePaymentAmount_result[OF po, of env "amountPaid p"] by blast
  from ok p r have "purchaseOrders s' = purchaseOrders (savePo s po')"
    by (auto simp: payment_void_def Let_def split: if_splits)
  then have f': "findOne s' (purchaseOrderId p) = Inr po'" using f by (simp add: findOne_def)
  have pa': "paidAmount po' = toFixed2 (asDouble env (paidAmount po - amountPaid p))"
    using pa le by simp
  from fixed_close[of env "totalAmount po - paidAmount po'"]
  have "balanceInvariant po'" unfolding balanceInvariant_def ou same pa' by linarith
  moreover have "totalInvariant po \<longrightarrow> totalInvariant po'"
    by (simp add: totalInvariant_def same)
  ultimately show ?thesis using f' by blast
qed

lemma sweep_invariants:
  assumes "markOverduePurchaseOrders today s = (n, s')"
    and "\<forall>po \<in> set (purchaseOrders s). balanceInvariant po \<and> totalInvariant po"
  shows "\<forall>po \<in> set (purchaseOrders s'). balanceInvariant po \<and> totalInvariant po"
  using assms
  by (auto simp: markOverduePurchaseOrders_def balanceInvariant_def totalInvariant_def)

lemma status_update_invariants:
  assumes "findOne s i = Inr po" and "po_update s i dto = Inr (po', s')"
    and "u_taxAmount dto = None" and "u_discountAmount dto = None"
  shows "findOne s' i = Inr po'"
    and "balanceInvariant po \<Longrightarrow> balanceInvariant po'"
    and "totalInvariant po \<Longrightarrow> totalInvariant po'"
proof -
  from assms have e: "po' = assignDto po dto" and s': "s' = savePo s po'"
    by (auto simp: po_update_def Let_def split: option.splits if_splits)
  have "po_id po' = i" using findOne_id[OF assms(1)] by (simp add: e assignDto_def)
  then show "findOne s' i = Inr po'" unfolding s' using assms(1) by (rule findOne_savePo[rotated])
  show "balanceInvariant po \<Longrightarrow> balanceInvariant po'"
    by (simp add: e assignDto_def balanceInvariant_def)
  show "totalInvariant po \<Longrightarrow> totalInvariant po'"
    using assms(3,4) by (simp add: e assignDto_def totalInvariant_def)
qed

text \<open>
  \<^bold>\<open>C1\<close>, at an update that approves a pending order and carries a tax amount. The
  order of subtotal 10000, tax 1800 and total 11800 satisfies the invariant;
  \<^verbatim>\<open>update\<close> assigns \<open>taxAmount = 500\<close> with the status and saves, the total stays
  11800, and \<open>subtotal - discountAmount + taxAmount\<close> is 10500.
\<close>

theorem update_breaks_total:
  "po_update pendingStore 1 approveWithTax = Inr (retaxedPo, retaxedStore) \<and>
   findOne retaxedStore 1 = Inr retaxedPo \<and>
   balanceInvariant pendingPo \<and> totalInvariant pendingPo \<and>
   \<not> totalInvariant retaxedPo"
  by code_simp

end
